theory Spec2Isabelle
  imports Main "HOL-Library.AList"
begin

section \<open>Values shared by the server components\<close>

text \<open>
  The server is a Node.js process built from four classes: \<open>RoomManager\<close>,
  \<open>PlayerManager\<close>, \<open>GameManager\<close> and \<open>MessageProtocol\<close>, wired together by
  \<open>GameServer\<close>. The embedding is of the in-memory mode (\<open>supabase = null\<close>), the mode
  the server runs in when no credentials are configured: every database call is then a
  no-op that resolves at once. Wall-clock time (\<open>Date.now()\<close>) is a parameter \<open>now\<close> of
  each operation, in milliseconds.
\<close>

type_synonym ref = nat

datatype phase = Waiting | Question | Discussion | Voting | Results

text \<open>A JSON value of an inbound payload field, as far as the handlers look at it.\<close>

datatype jsval = JStr string | JNum int | JBool bool | JNull | JObj

text \<open>JavaScript truthiness, as used by \<open>||\<close> and \<open>if\<close>.\<close>

fun truthy :: "jsval \<Rightarrow> bool" where
  "truthy (JStr s) = (s \<noteq> [])"
| "truthy (JNum n) = (n \<noteq> 0)"
| "truthy (JBool b) = b"
| "truthy JNull = False"
| "truthy JObj = True"

section \<open>The tally object of calculateVoteResults\<close>

text \<open>
  \<open>voteCounts\<close> is a plain object \<open>{}\<close> indexed by the target id. Two things of the
  language decide what \<open>Object.entries\<close> later returns, and both are modelled:
  \<^item> an object lists its own keys that are array indices (canonical decimal numerals
    below \<open>2^32 - 1\<close>) first, in ascending numeric order, and only then the other string
    keys, in insertion order;
  \<^item> a read \<open>voteCounts[k]\<close> of a key that is not an own property finds the property
    inherited from \<open>Object.prototype\<close>, if there is one: a function (or, for
    \<open>__proto__\<close>, the prototype object), which is truthy, and \<open>+ 1\<close> then concatenates
    strings. Such a value is \<open>NotANumber\<close> below: a non-empty, non-numeric string.
\<close>

datatype tally = Count nat | NotANumber

definition is_digit :: "char \<Rightarrow> bool" where
  "is_digit c = (48 \<le> (of_char c :: int) \<and> (of_char c :: int) \<le> 57)"

definition dec_val :: "string \<Rightarrow> int" where
  "dec_val s = foldl (\<lambda>n c. 10 * n + ((of_char c :: int) - 48)) 0 s"

definition is_array_index :: "string \<Rightarrow> bool" where
  "is_array_index s =
     (s \<noteq> [] \<and> list_all is_digit s \<and> (s = ''0'' \<or> hd s \<noteq> CHR ''0'')
      \<and> dec_val s < 4294967295)"

definition object_prototype_keys :: "string list" where
  "object_prototype_keys =
     [''constructor'', ''__defineGetter__'', ''__defineSetter__'', ''hasOwnProperty'',
      ''__lookupGetter__'', ''__lookupSetter__'', ''isPrototypeOf'',
      ''propertyIsEnumerable'', ''toString'', ''valueOf'', ''__proto__'',
      ''toLocaleString'']"

type_synonym tally_object = "(string \<times> tally) list"

text \<open>Creating an own property: where the new key lands in the key order.\<close>

fun insert_key :: "string \<Rightarrow> tally \<Rightarrow> tally_object \<Rightarrow> tally_object" where
  "insert_key k v [] = [(k, v)]"
| "insert_key k v ((k', v') # ps) =
     (if is_array_index k \<and> (\<not> is_array_index k' \<or> dec_val k < dec_val k')
      then (k, v) # (k', v') # ps
      else (k', v') # insert_key k v ps)"

text \<open>\<open>obj[k] = v\<close>. The inherited setter of \<open>__proto__\<close> ignores a primitive value.\<close>

definition obj_set :: "tally_object \<Rightarrow> string \<Rightarrow> tally \<Rightarrow> tally_object" where
  "obj_set ps k v =
     (if k = ''__proto__'' then ps
      else if k \<in> fst ` set ps then map (\<lambda>(k', v'). if k' = k then (k', v) else (k', v')) ps
      else insert_key k v ps)"

text \<open>\<open>(voteCounts[k] || 0) + 1\<close>\<close>

definition next_tally :: "tally_object \<Rightarrow> string \<Rightarrow> tally" where
  "next_tally ps k =
     (case map_of ps k of
        Some (Count n) \<Rightarrow> (if n = 0 then Count 1 else Count (n + 1))
      | Some NotANumber \<Rightarrow> NotANumber
      | None \<Rightarrow> (if k \<in> set object_prototype_keys then NotANumber else Count 1))"

definition count_vote :: "tally_object \<Rightarrow> string \<Rightarrow> tally_object" where
  "count_vote ps k = obj_set ps k (next_tally ps k)"

text \<open>
  The second loop: \<open>if (count > maxVotes) {...}\<close> over \<open>Object.entries\<close>. A string that
  is not a numeral compares as NaN, so the test is false for it.
\<close>

fun most_voted :: "tally_object \<Rightarrow> string option \<times> nat \<Rightarrow> string option \<times> nat" where
  "most_voted [] acc = acc"
| "most_voted ((k, Count n) # ps) (best, maxVotes) =
     (if n > maxVotes then most_voted ps (Some k, n) else most_voted ps (best, maxVotes))"
| "most_voted ((k, NotANumber) # ps) acc = most_voted ps acc"

section \<open>GameManager\<close>

record vote =
  v_playerId :: string
  v_targetId :: string
  v_timestamp :: nat

record vote_results =
  voteCounts :: tally_object
  mostVotedPlayer :: "string option"
  r_imposter :: "string option"
  playersWon :: bool
  totalVotes :: nat

text \<open>
  \<open>gameState\<close> and \<open>phaseTimer\<close> of the class, together with the part of the event loop
  the class talks to: the timeouts and intervals that are armed. A handle is a number;
  \<open>timers\<close> holds (handle, delay, phase the callback transitions to).
\<close>

record gstate =
  phase :: phase
  players :: "ref list"
  imposter :: "string option"
  questionId :: "nat option"
  discussionEndsAt :: "nat option"
  votes :: "vote list"
  results :: "vote_results option"
  phaseTimer :: "nat option"
  timers :: "(nat \<times> nat \<times> phase) list"
  intervals :: "nat list"
  nextHandle :: nat

record public_view =
  pv_phase :: phase
  pv_players :: "ref list"
  pv_questionId :: "nat option"
  pv_discussionEndsAt :: "nat option"
  pv_votesReceived :: nat
  pv_totalPlayers :: nat
  pv_results :: "vote_results option"

record player_entry =
  pe_id :: string
  pe_name :: string
  pe_joined_at :: nat
  pe_isActive :: bool
  pe_ready :: bool

text \<open>The outbound envelopes; the last field of each is its timestamp.\<close>

datatype message =
    ConnectionEstablished string public_view nat
  | Ping nat
  | Pong nat
  | ErrorMsg string string nat
  | JoinSuccess ref public_view string nat
  | PlayerListUpdate "player_entry list" nat "string option" nat
  | GameStarting string nat nat
  | PhaseChange phase phase public_view nat
  | DiscussionTimer nat nat nat
  | VoteProgress nat nat bool nat
  | ChatMessage jsval jsval "jsval option" nat
  | TestMessage "string option" "(string \<times> jsval) list" nat
  | MemoryTestAck nat
  | AnswerSubmitted string nat

text \<open>
  What a call of GameManager hands to its \<open>broadcast\<close> callback. \<open>vote_progress\<close> and
  \<open>discussion_timer\<close> are sent before the call reaches an \<open>await\<close>: \<open>Send\<close>.
  \<open>transitionPhase\<close> sends \<open>phase_change\<close> only after it has awaited its phase handler and
  \<open>updateGameStateInDatabase\<close>: the envelope is built when the call resumes, from the game
  state of that moment. \<open>PhaseChangeLater new previous\<close> is that suspended rest of the call;
  it keeps the two values the call has already fixed.
\<close>

datatype emission =
    Send message
  | PhaseChangeLater phase phase

datatype error =
    InvalidJSON
  | MissingType
  | MissingTimestamp
  | StaleTimestamp
  | ClientNotFound
  | UnknownMessageType string
  | AuthenticationRequired
  | MissingField string
  | FieldType string string
  | MessageTooLong
  | InvalidRoomCode
  | InvalidPlayerData
  | PlayerIdRequired string
  | InvalidPhase string
  | DuplicateVote
  | InsufficientPlayers
  | InvalidPhaseName string
  | UnhandledMessageType string
  | TypeError string

definition GameManager_init :: gstate where
  "GameManager_init =
     \<lparr>phase = Waiting, players = [], imposter = None, questionId = None,
      discussionEndsAt = None, votes = [], results = None, phaseTimer = None,
      timers = [], intervals = [], nextHandle = 0\<rparr>"

definition discussionDuration :: nat where
  "discussionDuration = 120000"

definition votingTimeout :: nat where
  "votingTimeout = 60000"

text \<open>The row of the \<open>games\<close> table that \<open>initializeGame\<close> reads, if there is one.\<close>

record game_row =
  row_phase :: "phase option"
  row_question_id :: "nat option"
  row_imposter_id :: "string option"

definition initializeGame :: "game_row option \<Rightarrow> gstate \<Rightarrow> gstate" where
  "initializeGame gameData g =
     (case gameData of
        None \<Rightarrow> g
      | Some row \<Rightarrow>
          g\<lparr>phase := (case row_phase row of Some p \<Rightarrow> p | None \<Rightarrow> Waiting),
            questionId := row_question_id row,
            imposter := row_imposter_id row\<rparr>)"

definition setTimeout :: "phase \<Rightarrow> nat \<Rightarrow> gstate \<Rightarrow> gstate" where
  "setTimeout target delay g =
     g\<lparr>phaseTimer := Some (nextHandle g),
       timers := timers g @ [(nextHandle g, delay, target)],
       nextHandle := nextHandle g + 1\<rparr>"

definition clearPhaseTimer :: "gstate \<Rightarrow> gstate" where
  "clearPhaseTimer g =
     (case phaseTimer g of
        None \<Rightarrow> g
      | Some h \<Rightarrow> g\<lparr>timers := filter (\<lambda>t. fst t \<noteq> h) (timers g), phaseTimer := None\<rparr>)"

definition calculateVoteResults :: "gstate \<Rightarrow> vote_results" where
  "calculateVoteResults g =
     (let counts = foldl count_vote [] (map v_targetId (votes g));
          most = fst (most_voted counts (None, 0))
      in \<lparr>voteCounts = counts, mostVotedPlayer = most, r_imposter = imposter g,
          playersWon = (most = imposter g), totalVotes = length (votes g)\<rparr>)"

definition getPublicGameState :: "gstate \<Rightarrow> public_view" where
  "getPublicGameState g =
     \<lparr>pv_phase = phase g, pv_players = players g, pv_questionId = questionId g,
      pv_discussionEndsAt = discussionEndsAt g, pv_votesReceived = length (votes g),
      pv_totalPlayers = length (players g), pv_results = results g\<rparr>"

text \<open>The second argument of \<open>transitionPhase\<close>; \<open>{}\<close> is \<open>no_data\<close>.\<close>

record phase_data =
  d_questionId :: "nat option"
  d_imposter :: "string option"

definition no_data :: phase_data where
  "no_data = \<lparr>d_questionId = None, d_imposter = None\<rparr>"

definition handleQuestionPhase :: "phase_data \<Rightarrow> gstate \<Rightarrow> gstate" where
  "handleQuestionPhase d g =
     (let g1 = (case d_questionId d of
                  Some q \<Rightarrow> (if q \<noteq> 0 then g\<lparr>questionId := Some q\<rparr> else g)
                | None \<Rightarrow> g)
      in (case d_imposter d of
            Some i \<Rightarrow> (if i \<noteq> [] then g1\<lparr>imposter := Some i\<rparr> else g1)
          | None \<Rightarrow> g1))"

definition startDiscussionTimer :: "gstate \<Rightarrow> gstate" where
  "startDiscussionTimer g =
     g\<lparr>intervals := intervals g @ [nextHandle g], nextHandle := nextHandle g + 1\<rparr>"

definition handleDiscussionPhase :: "nat \<Rightarrow> gstate \<Rightarrow> gstate" where
  "handleDiscussionPhase now g =
     startDiscussionTimer
       (setTimeout Voting discussionDuration
          (g\<lparr>discussionEndsAt := Some (now + discussionDuration)\<rparr>))"

definition handleVotingPhase :: "gstate \<Rightarrow> gstate" where
  "handleVotingPhase g =
     setTimeout Results votingTimeout (g\<lparr>votes := [], discussionEndsAt := None\<rparr>)"

definition handleResultsPhase :: "gstate \<Rightarrow> gstate" where
  "handleResultsPhase g =
     setTimeout Waiting 30000 (g\<lparr>results := Some (calculateVoteResults g)\<rparr>)"

definition handleWaitingPhase :: "gstate \<Rightarrow> gstate" where
  "handleWaitingPhase g =
     g\<lparr>imposter := None, questionId := None, votes := [], results := None,
       discussionEndsAt := None\<rparr>"

text \<open>
  \<open>transitionPhase\<close> up to its first \<open>await\<close> that suspends it: the phase is set, the phase
  timer cleared and the phase handler run (no handler awaits anything itself). The broadcast
  that ends the call is returned as \<open>PhaseChangeLater\<close>.
\<close>

definition transitionPhase ::
  "nat \<Rightarrow> phase \<Rightarrow> phase_data \<Rightarrow> gstate \<Rightarrow> emission list \<times> gstate" where
  "transitionPhase now newPhase additionalData g =
     (let previousPhase = phase g;
          g1 = clearPhaseTimer (g\<lparr>phase := newPhase\<rparr>);
          g2 = (case newPhase of
                  Question \<Rightarrow> handleQuestionPhase additionalData g1
                | Discussion \<Rightarrow> handleDiscussionPhase now g1
                | Voting \<Rightarrow> handleVotingPhase g1
                | Results \<Rightarrow> handleResultsPhase g1
                | Waiting \<Rightarrow> handleWaitingPhase g1)
      in ([PhaseChangeLater newPhase previousPhase], g2))"

text \<open>The rest of a \<open>transitionPhase\<close> call: the envelope it broadcasts when it resumes at \<open>now\<close>.\<close>

definition phaseChangeEnvelope :: "nat \<Rightarrow> phase \<Rightarrow> phase \<Rightarrow> gstate \<Rightarrow> message" where
  "phaseChangeEnvelope now newPhase previousPhase g =
     PhaseChange newPhase previousPhase (getPublicGameState g) now"

text \<open>
  \<open>handleVote\<close> with no \<open>votes\<close> table to write to, so that nothing suspends the call before
  its \<open>await this.transitionPhase('results')\<close>.
\<close>

definition handleVote ::
  "nat \<Rightarrow> string \<Rightarrow> string \<Rightarrow> gstate \<Rightarrow> error + emission list \<times> gstate" where
  "handleVote now playerId targetId g =
     (if phase g \<noteq> Voting then Inl (InvalidPhase ''Voting is not currently active'')
      else if find (\<lambda>v. v_playerId v = playerId) (votes g) \<noteq> None then Inl DuplicateVote
      else
        let g1 = g\<lparr>votes := votes g @
                     [\<lparr>v_playerId = playerId, v_targetId = targetId, v_timestamp = now\<rparr>]\<rparr>;
            progress = Send (VoteProgress (length (votes g1)) (length (players g1))
                               (length (votes g1) \<ge> length (players g1)) now)
        in if length (votes g1) \<ge> length (players g1)
           then (let (ms, g2) = transitionPhase now Results no_data (clearPhaseTimer g1)
                 in Inr (progress # ms, g2))
           else Inr ([progress], g1))"

definition updatePlayers :: "ref list \<Rightarrow> gstate \<Rightarrow> gstate" where
  "updatePlayers ps g = g\<lparr>players := ps\<rparr>"

definition cleanup :: "gstate \<Rightarrow> gstate" where
  "cleanup g = clearPhaseTimer g"

text \<open>A timeout armed by a phase handler expires: its callback is \<open>transitionPhase(target)\<close>.\<close>

definition timerFires :: "nat \<Rightarrow> nat \<Rightarrow> gstate \<Rightarrow> emission list \<times> gstate" where
  "timerFires now h g =
     (case find (\<lambda>t. fst t = h) (timers g) of
        None \<Rightarrow> ([], g)
      | Some (_, _, target) \<Rightarrow>
          transitionPhase now target no_data (g\<lparr>timers := filter (\<lambda>t. fst t \<noteq> h) (timers g)\<rparr>))"

text \<open>One tick of an interval of \<open>startDiscussionTimer\<close>.\<close>

definition intervalTick :: "nat \<Rightarrow> nat \<Rightarrow> gstate \<Rightarrow> emission list \<times> gstate" where
  "intervalTick now h g =
     (if h \<notin> set (intervals g) then ([], g)
      else case discussionEndsAt g of
        None \<Rightarrow> ([], g\<lparr>intervals := filter (\<lambda>i. i \<noteq> h) (intervals g)\<rparr>)
      | Some ends \<Rightarrow>
          if phase g \<noteq> Discussion
          then ([], g\<lparr>intervals := filter (\<lambda>i. i \<noteq> h) (intervals g)\<rparr>)
          else ([Send (DiscussionTimer (ends - now) ends now)],
                if ends - now \<le> 0 then g\<lparr>intervals := filter (\<lambda>i. i \<noteq> h) (intervals g)\<rparr>
                else g))"

text \<open>
  What can happen to a GameManager: each event is one call from outside the class (from
  the message handlers or from the event loop), up to the point where the call is first
  suspended; nothing after that point writes to the game state. Calls that overlap
  therefore act on the state one after the other, in the order in which they were made.
  A vote that is rejected leaves the state as it was.
\<close>

datatype event =
    TransitionPhase nat phase phase_data
  | HandleVote nat string string
  | UpdatePlayers "ref list"
  | TimerFires nat nat
  | IntervalTick nat nat
  | Cleanup

fun step :: "event \<Rightarrow> gstate \<Rightarrow> emission list \<times> gstate" where
  "step (TransitionPhase now p d) g = transitionPhase now p d g"
| "step (HandleVote now voter target) g =
     (case handleVote now voter target g of Inl e \<Rightarrow> ([], g) | Inr r \<Rightarrow> r)"
| "step (UpdatePlayers ps) g = ([], updatePlayers ps g)"
| "step (TimerFires now h) g = timerFires now h g"
| "step (IntervalTick now h) g = intervalTick now h g"
| "step Cleanup g = ([], cleanup g)"

fun run :: "event list \<Rightarrow> gstate \<Rightarrow> gstate" where
  "run [] g = g"
| "run (e # es) g = run es (snd (step e g))"

inductive reachable :: "gstate \<Rightarrow> bool" where
  initial: "reachable (initializeGame gameData GameManager_init)"
| after: "reachable g \<Longrightarrow> reachable (snd (step e g))"

section \<open>RoomManager\<close>

text \<open>
  \<open>rooms\<close> is a \<open>Map\<close> and the member sets are \<open>Set\<close>s: both keep insertion order,
  so they are an association list and lists without repetition.
\<close>

record room =
  r_code :: string
  r_players :: "string list"
  r_clients :: "string list"
  r_hostId :: "string option"
  r_createdAt :: nat

type_synonym rooms = "(string \<times> room) list"

definition set_add :: "'a \<Rightarrow> 'a list \<Rightarrow> 'a list" where
  "set_add x xs = (if x \<in> set xs then xs else xs @ [x])"

definition ensureRoom :: "nat \<Rightarrow> string \<Rightarrow> rooms \<Rightarrow> room \<times> rooms" where
  "ensureRoom now code rs =
     (case map_of rs code of
        Some r \<Rightarrow> (r, rs)
      | None \<Rightarrow>
          (let r = \<lparr>r_code = code, r_players = [], r_clients = [], r_hostId = None,
                    r_createdAt = now\<rparr>
           in (r, AList.update code r rs)))"

definition addClientToRoom :: "nat \<Rightarrow> string \<Rightarrow> string \<Rightarrow> rooms \<Rightarrow> rooms" where
  "addClientToRoom now code clientId rs =
     (let (r, rs1) = ensureRoom now code rs
      in AList.update code (r\<lparr>r_clients := set_add clientId (r_clients r)\<rparr>) rs1)"

definition removeClientFromRoom :: "string \<Rightarrow> string \<Rightarrow> rooms \<Rightarrow> rooms" where
  "removeClientFromRoom code clientId rs =
     (case map_of rs code of
        None \<Rightarrow> rs
      | Some r \<Rightarrow>
          (let r1 = r\<lparr>r_clients := removeAll clientId (r_clients r)\<rparr>
           in if r_clients r1 = [] \<and> r_players r1 = [] then AList.delete code rs
              else AList.update code r1 rs))"

definition addPlayerToRoom :: "nat \<Rightarrow> string \<Rightarrow> string \<Rightarrow> bool \<Rightarrow> rooms \<Rightarrow> rooms" where
  "addPlayerToRoom now code playerId makeHostIfFirst rs =
     (let (r, rs1) = ensureRoom now code rs;
          r1 = r\<lparr>r_players := set_add playerId (r_players r)\<rparr>;
          r2 = (if makeHostIfFirst \<and> (r_hostId r1 = None \<or> r_hostId r1 = Some [])
                then r1\<lparr>r_hostId := Some playerId\<rparr> else r1)
      in AList.update code r2 rs1)"

definition removePlayerFromRoom :: "string \<Rightarrow> string \<Rightarrow> rooms \<Rightarrow> rooms" where
  "removePlayerFromRoom code playerId rs =
     (case map_of rs code of
        None \<Rightarrow> rs
      | Some r \<Rightarrow>
          (let r1 = r\<lparr>r_players := removeAll playerId (r_players r)\<rparr>;
               r2 = (if r_hostId r1 = Some playerId
                     then r1\<lparr>r_hostId := (case r_players r1 of
                                               [] \<Rightarrow> None
                                             | q # _ \<Rightarrow> (if q = [] then None else Some q))\<rparr>
                     else r1)
           in if r_clients r2 = [] \<and> r_players r2 = [] then AList.delete code rs
              else AList.update code r2 rs))"

section \<open>PlayerManager\<close>

record player =
  p_id :: string
  p_name :: string
  p_email :: "string option"
  p_roomCode :: "string option"
  p_joinedAt :: nat
  p_isActive :: bool
  p_ready :: bool
  p_clientId :: string

record client_data =
  cd_id :: string
  cd_name :: string
  cd_email :: "string option"
  cd_roomCode :: "string option"
  cd_joinedAt :: nat
  cd_isActive :: bool

record client =
  c_ws :: nat
  c_playerId :: "string option"
  c_playerData :: "client_data option"
  c_lastHeartbeat :: nat
  c_connectedAt :: nat

text \<open>
  A WebSocket of the transport: whether its \<open>readyState\<close> is \<open>OPEN\<close>, and whether
  \<open>send\<close> on it throws.
\<close>

record socket =
  so_open :: bool
  so_throws :: bool

text \<open>Callbacks handed to \<open>setTimeout\<close> by PlayerManager and MessageProtocol.\<close>

datatype task = RemoveClientTask string | StartGameTask string

text \<open>
  The calls that are suspended at an \<open>await\<close>. \<open>RemovePlayerCont\<close> is the rest of a
  \<open>removePlayer\<close> call after its first \<open>await\<close>: the player id and the room code of the
  player object the call holds. \<open>PhaseChangeCont\<close> is the rest of a \<open>transitionPhase\<close> call:
  the new and the previous phase.
\<close>

datatype micro =
    RemovePlayerCont string "string option"
  | PhaseChangeCont phase phase

text \<open>
  The state of the server. Player objects live in \<open>heap\<close>: the \<open>players\<close> map of
  PlayerManager and the \<open>players\<close> array of the game state refer to the same objects.
  \<open>outbox\<close> lists what has been handed to \<open>ws.send\<close>, with the socket; \<open>tasks\<close> are the
  timeouts armed by PlayerManager and MessageProtocol; \<open>microtasks\<close> are the suspended
  calls, oldest first; \<open>unhandled\<close> are the errors of promises that were rejected with
  nothing awaiting them.
\<close>

record sys =
  clients :: "(string \<times> client) list"
  pm_players :: "(string \<times> ref) list"
  heap :: "ref \<Rightarrow> player option"
  nextRef :: nat
  rooms :: rooms
  game :: gstate
  sockets :: "nat \<Rightarrow> socket"
  outbox :: "(nat \<times> message) list"
  tasks :: "task list"
  microtasks :: "micro list"
  unhandled :: "error list"

definition ws_send :: "nat \<Rightarrow> message \<Rightarrow> sys \<Rightarrow> bool \<times> sys" where
  "ws_send w m s =
     (if so_throws (sockets s w) then (False, s)
      else (True, s\<lparr>outbox := outbox s @ [(w, m)]\<rparr>))"

definition ws_close :: "nat \<Rightarrow> sys \<Rightarrow> sys" where
  "ws_close w s = s\<lparr>sockets := (sockets s)(w := (sockets s w)\<lparr>so_open := False\<rparr>)\<rparr>"

lemma length_delete_less:
  "map_of xs k = Some v \<Longrightarrow> length (AList.delete k xs) < length xs"
  by (induction xs) (auto simp: less_Suc_eq_le AList.length_delete_le split: if_splits)

text \<open>
  \<open>removeClient\<close> and the part of \<open>removePlayer\<close> that runs before its first \<open>await\<close>
  call each other. \<open>removeClient\<close> does not wait for the \<open>removePlayer\<close> it starts.
  (An entry of the \<open>players\<close> map always refers to an object: \<open>addPlayer\<close> allocates
  the two together. The branch for a reference without an object is there because
  \<open>heap\<close> is a partial map.)
\<close>

function removeClient :: "string \<Rightarrow> sys \<Rightarrow> sys"
  and removePlayer_sync :: "string \<Rightarrow> sys \<Rightarrow> sys" where
  "removeClient clientId s =
     (case map_of (clients s) clientId of
        None \<Rightarrow> s
      | Some client \<Rightarrow>
          (let s1 = (if so_open (sockets s (c_ws client)) then ws_close (c_ws client) s else s);
               s2 = s1\<lparr>clients := AList.delete clientId (clients s)\<rparr>;
               s3 = (case c_playerId client of
                       None \<Rightarrow> s2
                     | Some pid \<Rightarrow>
                         if pid = [] then s2
                         else if list_ex (\<lambda>c. c_playerId (snd c) = Some pid)
                                   (AList.delete clientId (clients s))
                         then s2
                         else removePlayer_sync pid s2)
           in (case c_playerData client of
                 None \<Rightarrow> s3
               | Some d \<Rightarrow>
                   (case cd_roomCode d of
                      None \<Rightarrow> s3
                    | Some code \<Rightarrow>
                        if code = [] then s3
                        else s3\<lparr>rooms := removeClientFromRoom code clientId (rooms s3)\<rparr>))))"
| "removePlayer_sync playerId s =
     (case map_of (pm_players s) playerId of
        None \<Rightarrow> s
      | Some r \<Rightarrow>
          (case heap s r of
             None \<Rightarrow> s
           | Some player \<Rightarrow>
               (let s1 = (if map_of (clients s) (p_clientId player) \<noteq> None
                          then removeClient (p_clientId player) s else s);
                    s2 = s1\<lparr>pm_players := AList.delete playerId (pm_players s1)\<rparr>
                in s2\<lparr>microtasks := microtasks s2 @
                        [RemovePlayerCont playerId (p_roomCode player)]\<rparr>)))"
  by pat_completeness auto

termination
  apply (relation "measure (\<lambda>x. case x of Inl (c, s) \<Rightarrow> 2 * length (clients s)
                                     | Inr (p, s) \<Rightarrow> 2 * length (clients s) + 1)")
    apply simp
   apply (auto simp: ws_close_def dest!: length_delete_less)
  done

declare removeClient.simps [simp del] removePlayer_sync.simps [simp del]

definition schedule :: "task \<Rightarrow> sys \<Rightarrow> sys" where
  "schedule t s = s\<lparr>tasks := tasks s @ [t]\<rparr>"

text \<open>
  The body of the loops of \<open>broadcastToAll\<close> and \<open>broadcastToRoom\<close>: send if the socket
  is open; a socket that is not open or whose \<open>send\<close> throws has its client removed by a
  zero-delay timeout.
\<close>

definition deliver :: "string \<Rightarrow> client \<Rightarrow> message \<Rightarrow> sys \<Rightarrow> sys" where
  "deliver clientId client m s =
     (if so_open (sockets s (c_ws client))
      then (case ws_send (c_ws client) m s of
              (True, s') \<Rightarrow> s'
            | (False, s') \<Rightarrow> schedule (RemoveClientTask clientId) s')
      else schedule (RemoveClientTask clientId) s)"

definition broadcastToAll :: "message \<Rightarrow> sys \<Rightarrow> sys" where
  "broadcastToAll m s = foldl (\<lambda>s' c. deliver (fst c) (snd c) m s') s (clients s)"

definition broadcastToRoom :: "string \<Rightarrow> message \<Rightarrow> sys \<Rightarrow> sys" where
  "broadcastToRoom roomCode m s =
     (case map_of (rooms s) roomCode of
        None \<Rightarrow> s
      | Some r \<Rightarrow>
          foldl (\<lambda>s' clientId.
                   case map_of (clients s') clientId of
                     Some c \<Rightarrow> deliver clientId c m s'
                   | None \<Rightarrow> schedule (RemoveClientTask clientId) s')
                s (r_clients r))"

text \<open>\<open>Array.from(this.players.values())\<close>\<close>

definition players_values :: "sys \<Rightarrow> player list" where
  "players_values s = List.map_filter (heap s) (map snd (pm_players s))"

definition broadcastPlayerList :: "nat \<Rightarrow> string option \<Rightarrow> sys \<Rightarrow> sys" where
  "broadcastPlayerList now roomCode s =
     (let scoped = (case roomCode of None \<Rightarrow> False | Some code \<Rightarrow> code \<noteq> []);
          listSource = (if scoped then filter (\<lambda>p. p_roomCode p = roomCode) (players_values s)
                        else players_values s);
          playerList = map (\<lambda>p. \<lparr>pe_id = p_id p, pe_name = p_name p,
                                   pe_joined_at = p_joinedAt p, pe_isActive = p_isActive p,
                                   pe_ready = p_ready p\<rparr>) listSource;
          m = PlayerListUpdate playerList (length playerList)
                (if scoped then roomCode else None) now
      in if scoped then broadcastToRoom (the roomCode) m s else broadcastToAll m s)"

definition sendToClient :: "string \<Rightarrow> message \<Rightarrow> sys \<Rightarrow> bool \<times> sys" where
  "sendToClient clientId m s =
     (case map_of (clients s) clientId of
        None \<Rightarrow> (False, s)
      | Some c \<Rightarrow>
          if so_open (sockets s (c_ws c))
          then (case ws_send (c_ws c) m s of
                  (True, s') \<Rightarrow> (True, s')
                | (False, s') \<Rightarrow> (False, removeClient clientId s'))
          else (False, s))"

definition updateHeartbeat :: "nat \<Rightarrow> string \<Rightarrow> sys \<Rightarrow> sys" where
  "updateHeartbeat now clientId s =
     (case map_of (clients s) clientId of
        None \<Rightarrow> s
      | Some c \<Rightarrow> s\<lparr>clients := AList.update clientId (c\<lparr>c_lastHeartbeat := now\<rparr>) (clients s)\<rparr>)"

text \<open>
  A suspended call resumes. \<open>removePlayer\<close> leaves the room and broadcasts the list;
  \<open>transitionPhase\<close> broadcasts the phase change with the public view of the game as it
  is now.
\<close>

fun run_micro :: "nat \<Rightarrow> micro \<Rightarrow> sys \<Rightarrow> sys" where
  "run_micro now (RemovePlayerCont playerId roomCode) s =
     (case roomCode of
        None \<Rightarrow> broadcastPlayerList now None s
      | Some code \<Rightarrow>
          if code = [] then broadcastPlayerList now None s
          else broadcastPlayerList now (Some code)
                 (s\<lparr>rooms := removePlayerFromRoom code playerId (rooms s)\<rparr>))"
| "run_micro now (PhaseChangeCont newPhase previousPhase) s =
     broadcastToAll (phaseChangeEnvelope now newPhase previousPhase (game s)) s"

text \<open>
  The microtask queue runs, oldest first: at an \<open>await\<close> of the running handler and at
  the end of every callback of the event loop.
\<close>

definition drain :: "nat \<Rightarrow> sys \<Rightarrow> sys" where
  "drain now s = foldl (\<lambda>s' m. run_micro now m s') (s\<lparr>microtasks := []\<rparr>) (microtasks s)"

text \<open>\<open>await removePlayer(playerId)\<close>\<close>

definition removePlayer :: "nat \<Rightarrow> string \<Rightarrow> sys \<Rightarrow> sys" where
  "removePlayer now playerId s = drain now (removePlayer_sync playerId s)"

definition findClientByPlayerId :: "string \<Rightarrow> sys \<Rightarrow> (string \<times> client) option" where
  "findClientByPlayerId playerId s = find (\<lambda>c. c_playerId (snd c) = Some playerId) (clients s)"

record join_data =
  jd_playerId :: "string option"
  jd_playerName :: "string option"
  jd_email :: "string option"
  jd_roomCode :: "string option"

text \<open>\<open>x || null\<close> for a string that may be absent.\<close>

definition or_null :: "string option \<Rightarrow> string option" where
  "or_null x = (case x of None \<Rightarrow> None | Some v \<Rightarrow> if v = [] then None else Some v)"

definition addPlayer ::
  "nat \<Rightarrow> string \<Rightarrow> string \<Rightarrow> nat \<Rightarrow> join_data \<Rightarrow> sys \<Rightarrow> error + ref \<times> sys" where
  "addPlayer now randomId clientId ws playerData s =
     (let playerId = (case or_null (jd_playerId playerData) of None \<Rightarrow> randomId | Some p \<Rightarrow> p)
      in if playerId = [] \<or> or_null (jd_playerName playerData) = None then Inl InvalidPlayerData
         else
           let playerName = the (jd_playerName playerData);
               email = or_null (jd_email playerData);
               roomCode = or_null (jd_roomCode playerData);
               s1 = (case findClientByPlayerId playerId s of
                       None \<Rightarrow> s
                     | Some existingClient \<Rightarrow> removeClient (fst existingClient) s);
               s2 = s1\<lparr>clients := AList.update clientId
                          \<lparr>c_ws = ws, c_playerId = Some playerId,
                           c_playerData = Some \<lparr>cd_id = playerId, cd_name = playerName,
                             cd_email = email, cd_roomCode = roomCode, cd_joinedAt = now,
                             cd_isActive = True\<rparr>,
                           c_lastHeartbeat = now, c_connectedAt = now\<rparr> (clients s1)\<rparr>;
               r = nextRef s2;
               s3 = s2\<lparr>heap := (heap s2)(r \<mapsto>
                          \<lparr>p_id = playerId, p_name = playerName, p_email = email,
                           p_roomCode = roomCode, p_joinedAt = now, p_isActive = True,
                           p_ready = False, p_clientId = clientId\<rparr>),
                       nextRef := r + 1,
                       pm_players := AList.update playerId r (pm_players s2)\<rparr>;
               s4 = (case roomCode of
                       None \<Rightarrow> s3
                     | Some code \<Rightarrow>
                         s3\<lparr>rooms := addPlayerToRoom now code playerId True
                                        (addClientToRoom now code clientId (rooms s3))\<rparr>);
               s5 = drain now s4;
               s6 = broadcastPlayerList now roomCode s5
           in Inr (r, s6))"

definition togglePlayerReady :: "nat \<Rightarrow> string \<Rightarrow> sys \<Rightarrow> bool \<times> sys" where
  "togglePlayerReady now playerId s =
     (case map_of (pm_players s) playerId of
        None \<Rightarrow> (False, s)
      | Some r \<Rightarrow>
          (case heap s r of
             None \<Rightarrow> (False, s)
           | Some p \<Rightarrow>
               (True, broadcastPlayerList now None
                        (s\<lparr>heap := (heap s)(r \<mapsto> p\<lparr>p_ready := \<not> p_ready p\<rparr>)\<rparr>))))"

definition areAllPlayersReady :: "sys \<Rightarrow> bool" where
  "areAllPlayersReady s =
     (let activePlayers = filter p_isActive (players_values s)
      in activePlayers \<noteq> [] \<and> list_all p_ready activePlayers)"

definition getActivePlayers :: "sys \<Rightarrow> ref list" where
  "getActivePlayers s =
     filter (\<lambda>r. case heap s r of None \<Rightarrow> False | Some p \<Rightarrow> p_isActive p)
            (map snd (pm_players s))"

definition getPlayerCount :: "sys \<Rightarrow> nat" where
  "getPlayerCount s = length (pm_players s)"

definition getPlayerById :: "string option \<Rightarrow> sys \<Rightarrow> player option" where
  "getPlayerById playerId s =
     (case playerId of
        None \<Rightarrow> None
      | Some pid \<Rightarrow> (case map_of (pm_players s) pid of None \<Rightarrow> None | Some r \<Rightarrow> heap s r))"

section \<open>GameManager inside the server\<close>

text \<open>
  The \<open>broadcast\<close> callback of GameManager is \<open>broadcastToAll\<close> of PlayerManager. It
  reads and writes nothing of the game state, so what a GameManager call has sent by the
  time it is suspended is delivered after that part of the call; the broadcast it still
  owes joins the suspended calls.
\<close>

fun emit :: "emission \<Rightarrow> sys \<Rightarrow> sys" where
  "emit (Send m) s = broadcastToAll m s"
| "emit (PhaseChangeLater newPhase previousPhase) s =
     s\<lparr>microtasks := microtasks s @ [PhaseChangeCont newPhase previousPhase]\<rparr>"

definition gm_broadcast :: "emission list \<Rightarrow> sys \<Rightarrow> sys" where
  "gm_broadcast ms s = foldl (\<lambda>s' m. emit m s') s ms"

text \<open>\<open>await this.gameManager.transitionPhase(p, d)\<close>\<close>

definition sys_transitionPhase :: "nat \<Rightarrow> phase \<Rightarrow> phase_data \<Rightarrow> sys \<Rightarrow> sys" where
  "sys_transitionPhase now p d s =
     (let (ms, g) = transitionPhase now p d (game s)
      in drain now (gm_broadcast ms (s\<lparr>game := g\<rparr>)))"

section \<open>MessageProtocol\<close>

text \<open>
  An inbound frame after \<open>JSON.parse\<close>: an object with a string \<open>type\<close>, a numeric
  \<open>timestamp\<close> (an absent field is the empty string or 0, which the checks treat alike)
  and a \<open>payload\<close> object, if any.
\<close>

type_synonym payload = "(string \<times> jsval) list"

record frame =
  f_type :: string
  f_timestamp :: int
  f_payload :: "payload option"

datatype kind = KString | KNumber | KBoolean

record schema =
  sc_fields :: "(string \<times> kind \<times> bool) list"
  sc_maxLength :: "nat option"

definition messageTypes :: "(string \<times> bool \<times> schema) list" where
  "messageTypes =
     [(''ping'', False, \<lparr>sc_fields = [], sc_maxLength = None\<rparr>),
      (''pong'', False, \<lparr>sc_fields = [], sc_maxLength = None\<rparr>),
      (''join'', False,
         \<lparr>sc_fields = [(''playerId'', KString, True), (''playerName'', KString, False),
                       (''roomCode'', KString, False), (''email'', KString, True)],
          sc_maxLength = None\<rparr>),
      (''leave'', True, \<lparr>sc_fields = [], sc_maxLength = None\<rparr>),
      (''toggle_ready'', True, \<lparr>sc_fields = [], sc_maxLength = None\<rparr>),
      (''start_game'', True, \<lparr>sc_fields = [], sc_maxLength = None\<rparr>),
      (''chat_message'', False,
         \<lparr>sc_fields = [(''message'', KString, False)], sc_maxLength = Some 500\<rparr>),
      (''chat'', False,
         \<lparr>sc_fields = [(''message'', KString, False)], sc_maxLength = Some 500\<rparr>),
      (''vote'', True, \<lparr>sc_fields = [(''targetId'', KString, False)], sc_maxLength = None\<rparr>),
      (''new_game'', True, \<lparr>sc_fields = [], sc_maxLength = None\<rparr>),
      (''test_message'', False, \<lparr>sc_fields = [], sc_maxLength = None\<rparr>),
      (''memory_test'', False,
         \<lparr>sc_fields = [(''data'', KString, True)], sc_maxLength = None\<rparr>),
      (''submit_answer'', True,
         \<lparr>sc_fields = [(''answer'', KString, False)], sc_maxLength = None\<rparr>),
      (''force_phase_transition'', True,
         \<lparr>sc_fields = [(''phase'', KString, False), (''adminKey'', KString, True)],
          sc_maxLength = None\<rparr>)]"

fun has_kind :: "kind \<Rightarrow> jsval \<Rightarrow> bool" where
  "has_kind KString (JStr _) = True"
| "has_kind KNumber (JNum _) = True"
| "has_kind KBoolean (JBool _) = True"
| "has_kind _ _ = False"

fun kind_name :: "kind \<Rightarrow> string" where
  "kind_name KString = ''string''"
| "kind_name KNumber = ''number''"
| "kind_name KBoolean = ''boolean''"

fun validatePayloadSchema ::
  "payload \<Rightarrow> (string \<times> kind \<times> bool) list \<Rightarrow> nat option \<Rightarrow> error option" where
  "validatePayloadSchema pl [] maxLength = None"
| "validatePayloadSchema pl ((field, k, isOptional) # rest) maxLength =
     (case map_of pl field of
        None \<Rightarrow> (if isOptional then validatePayloadSchema pl rest maxLength
                   else Some (MissingField field))
      | Some v \<Rightarrow>
          if \<not> has_kind k v then Some (FieldType field (kind_name k))
          else if field = ''message'' \<and>
                  (case maxLength of
                     None \<Rightarrow> False
                   | Some n \<Rightarrow> n \<noteq> 0 \<and> (case v of JStr m \<Rightarrow> length m > n | _ \<Rightarrow> False))
          then Some MessageTooLong
          else validatePayloadSchema pl rest maxLength)"

definition validateMessageStructure :: "nat \<Rightarrow> frame \<Rightarrow> error option" where
  "validateMessageStructure now message =
     (if f_type message = [] then Some MissingType
      else if f_timestamp message = 0 then Some MissingTimestamp
      else if \<bar>int now - f_timestamp message\<bar> > 300000 then Some StaleTimestamp
      else None)"

text \<open>
  \<open>this.messageTypes[message.type]\<close> is a property read of a plain object: for a type
  that names a property of \<open>Object.prototype\<close> it finds that property, which has neither
  \<open>requiresAuth\<close> nor \<open>schema\<close>, and the message goes on to the router.
\<close>

definition validateMessage :: "frame \<Rightarrow> client \<Rightarrow> error option" where
  "validateMessage message client =
     (case map_of messageTypes (f_type message) of
        None \<Rightarrow> (if f_type message \<in> set object_prototype_keys then None
                   else Some (UnknownMessageType (f_type message)))
      | Some (requiresAuth, sch) \<Rightarrow>
          if requiresAuth \<and> or_null (c_playerId client) = None then Some AuthenticationRequired
          else (case f_payload message of
                  None \<Rightarrow> None
                | Some pl \<Rightarrow> validatePayloadSchema pl (sc_fields sch) (sc_maxLength sch)))"

text \<open>JavaScript \<open>trim\<close>, on code units below 256: tab to carriage return, space, U+00A0.\<close>

definition is_space :: "char \<Rightarrow> bool" where
  "is_space c = ((of_char c :: nat) \<in> {9, 10, 11, 12, 13, 32, 160})"

definition trim :: "string \<Rightarrow> string" where
  "trim s = rev (dropWhile is_space (rev (dropWhile is_space s)))"

text \<open>\<open>/^\d{3}$/.test(code)\<close>\<close>

definition is_room_code :: "string \<Rightarrow> bool" where
  "is_room_code code = (length code = 3 \<and> list_all is_digit code)"

text \<open>
  A string field of a payload. The handlers that read one run after
  \<open>validatePayloadSchema\<close>, so the field is absent or a string.
\<close>

definition str_field :: "payload \<Rightarrow> string \<Rightarrow> string option" where
  "str_field pl k = (case map_of pl k of Some (JStr v) \<Rightarrow> Some v | _ \<Rightarrow> None)"

text \<open>\<open>payload[k] || d\<close>\<close>

definition or_default :: "jsval option \<Rightarrow> jsval \<Rightarrow> jsval" where
  "or_default x d = (case x of None \<Rightarrow> d | Some v \<Rightarrow> if truthy v then v else d)"

definition handlePing :: "nat \<Rightarrow> string \<Rightarrow> sys \<Rightarrow> error + sys" where
  "handlePing now clientId s =
     Inr (snd (sendToClient clientId (Pong now) (updateHeartbeat now clientId s)))"

definition handlePong :: "nat \<Rightarrow> string \<Rightarrow> sys \<Rightarrow> error + sys" where
  "handlePong now clientId s = Inr (updateHeartbeat now clientId s)"

definition handleJoin ::
  "nat \<Rightarrow> string \<Rightarrow> string \<Rightarrow> payload option \<Rightarrow> client \<Rightarrow> sys \<Rightarrow> error + sys" where
  "handleJoin now randomId clientId payload client s =
     (case payload of
        None \<Rightarrow> Inl (TypeError ''roomCode'')
      | Some pl \<Rightarrow>
          let code = trim (case str_field pl ''roomCode'' of None \<Rightarrow> [] | Some c \<Rightarrow> c)
          in if \<not> is_room_code code then Inl InvalidRoomCode
             else
               let joinPayload =
                     \<lparr>jd_playerId = (case or_null (str_field pl ''playerId'') of
                                        None \<Rightarrow> Some randomId | Some p \<Rightarrow> Some p),
                      jd_playerName = str_field pl ''playerName'',
                      jd_email = str_field pl ''email'',
                      jd_roomCode = str_field pl ''roomCode''\<rparr>
               in (case addPlayer now randomId clientId (c_ws client) joinPayload s of
                     Inl e \<Rightarrow> Inl e
                   | Inr (r, s1) \<Rightarrow>
                       let s2 = s1\<lparr>game := updatePlayers (getActivePlayers s1) (game s1)\<rparr>
                       in Inr (snd (sendToClient clientId
                                 (JoinSuccess r (getPublicGameState (game s2)) code now) s2))))"

definition handleLeave :: "nat \<Rightarrow> client \<Rightarrow> sys \<Rightarrow> error + sys" where
  "handleLeave now client s =
     (case or_null (c_playerId client) of
        None \<Rightarrow> Inr s
      | Some pid \<Rightarrow>
          let s1 = removePlayer now pid s
          in Inr (s1\<lparr>game := updatePlayers (getActivePlayers s1) (game s1)\<rparr>))"

definition handleStartGame :: "nat \<Rightarrow> nat \<Rightarrow> sys \<Rightarrow> error + sys" where
  "handleStartGame now random s =
     (if phase (game s) \<noteq> Waiting then Inl (InvalidPhase ''Game is already in progress'')
      else if getPlayerCount s < 2 then Inl InsufficientPlayers
      else
        let ps = getActivePlayers s
        in if ps = [] then Inl (TypeError ''id'')
           else (case heap s (ps ! (random mod length ps)) of
                   None \<Rightarrow> Inl (TypeError ''id'')
                 | Some p \<Rightarrow>
                     Inr (sys_transitionPhase now Question
                            \<lparr>d_questionId = Some 1, d_imposter = Some (p_id p)\<rparr> s)))"

definition handleToggleReady :: "nat \<Rightarrow> string \<Rightarrow> client \<Rightarrow> sys \<Rightarrow> error + sys" where
  "handleToggleReady now clientId client s =
     (case or_null (c_playerId client) of
        None \<Rightarrow> Inl (PlayerIdRequired ''ready toggle'')
      | Some pid \<Rightarrow>
          let (success, s1) = togglePlayerReady now pid s
          in if success \<and> areAllPlayersReady s1 \<and> getPlayerCount s1 \<ge> 2
             then Inr (schedule (StartGameTask clientId)
                         (broadcastToAll
                            (GameStarting ''All players ready! Game starting in 3 seconds...'' 3 now)
                            s1))
             else Inr s1)"

definition handleChatMessage :: "nat \<Rightarrow> payload option \<Rightarrow> client \<Rightarrow> sys \<Rightarrow> error + sys" where
  "handleChatMessage now payload client s =
     (let gameState = game s;
          found = getPlayerById (c_playerId client) s
      in case payload of
           None \<Rightarrow> Inl (TypeError (if found = None then ''playerId'' else ''message''))
         | Some pl \<Rightarrow>
             let pid = (case found of
                          Some p \<Rightarrow> JStr (p_id p)
                        | None \<Rightarrow> or_default (map_of pl ''playerId'') (JStr ''anonymous''));
                 pname = (case found of
                            Some p \<Rightarrow> JStr (p_name p)
                          | None \<Rightarrow> or_default (map_of pl ''playerName'') (JStr ''Anonymous''))
             in Inr (broadcastToAll
                       (ChatMessage
                          (if truthy pid then pid
                           else (case c_playerId client of None \<Rightarrow> JNull | Some c \<Rightarrow> JStr c))
                          pname (map_of pl ''message'') now)
                       s))"

definition handleTestMessage :: "nat \<Rightarrow> payload option \<Rightarrow> client \<Rightarrow> sys \<Rightarrow> error + sys" where
  "handleTestMessage now payload client s =
     Inr (broadcastToAll
            (TestMessage (c_playerId client) (case payload of None \<Rightarrow> [] | Some pl \<Rightarrow> pl) now) s)"

definition handleMemoryTest :: "nat \<Rightarrow> string \<Rightarrow> sys \<Rightarrow> error + sys" where
  "handleMemoryTest now clientId s = Inr (snd (sendToClient clientId (MemoryTestAck now) s))"

definition handleSubmitAnswer :: "nat \<Rightarrow> client \<Rightarrow> sys \<Rightarrow> error + sys" where
  "handleSubmitAnswer now client s =
     (case or_null (c_playerId client) of
        None \<Rightarrow> Inl (PlayerIdRequired ''submitting answer'')
      | Some pid \<Rightarrow>
          if phase (game s) \<noteq> Question \<and> phase (game s) \<noteq> Discussion
          then Inl (InvalidPhase
                 ''Answers can only be submitted during question or discussion phase'')
          else Inr (broadcastToAll (AnswerSubmitted pid now) s))"

definition mp_handleVote :: "nat \<Rightarrow> payload option \<Rightarrow> client \<Rightarrow> sys \<Rightarrow> error + sys" where
  "mp_handleVote now payload client s =
     (case or_null (c_playerId client) of
        None \<Rightarrow> Inl (PlayerIdRequired ''voting'')
      | Some pid \<Rightarrow>
          (case payload of
             None \<Rightarrow> Inl (TypeError ''targetId'')
           | Some pl \<Rightarrow>
               (case handleVote now pid
                       (case str_field pl ''targetId'' of None \<Rightarrow> [] | Some t \<Rightarrow> t) (game s) of
                  Inl e \<Rightarrow> Inl e
                | Inr (ms, g) \<Rightarrow> Inr (drain now (gm_broadcast ms (s\<lparr>game := g\<rparr>))))))"

definition handleNewGame :: "nat \<Rightarrow> sys \<Rightarrow> error + sys" where
  "handleNewGame now s =
     (if phase (game s) \<noteq> Results
      then Inl (InvalidPhase ''New game can only be started from results phase'')
      else Inr (sys_transitionPhase now Waiting no_data s))"

definition phase_of_string :: "string \<Rightarrow> phase option" where
  "phase_of_string x =
     map_of [(''waiting'', Waiting), (''question'', Question), (''discussion'', Discussion),
             (''voting'', Voting), (''results'', Results)] x"

definition handleForcePhaseTransition :: "nat \<Rightarrow> payload option \<Rightarrow> sys \<Rightarrow> error + sys" where
  "handleForcePhaseTransition now payload s =
     (case payload of
        None \<Rightarrow> Inl (TypeError ''phase'')
      | Some pl \<Rightarrow>
          (case str_field pl ''phase'' of
             None \<Rightarrow> Inl (InvalidPhaseName [])
           | Some x \<Rightarrow>
               (case phase_of_string x of
                  None \<Rightarrow> Inl (InvalidPhaseName x)
                | Some p \<Rightarrow> Inr (sys_transitionPhase now p no_data s))))"

text \<open>What the two random draws of a handler return: a fresh id and an index.\<close>

record env =
  e_now :: nat
  e_randomId :: string
  e_random :: nat

definition routeMessage :: "env \<Rightarrow> string \<Rightarrow> frame \<Rightarrow> client \<Rightarrow> sys \<Rightarrow> error + sys" where
  "routeMessage e clientId message client s =
     (let t = f_type message; payload = f_payload message; now = e_now e
      in if t = ''ping'' then handlePing now clientId s
         else if t = ''pong'' then handlePong now clientId s
         else if t = ''join'' then handleJoin now (e_randomId e) clientId payload client s
         else if t = ''leave'' then handleLeave now client s
         else if t = ''toggle_ready'' then handleToggleReady now clientId client s
         else if t = ''start_game'' then handleStartGame now (e_random e) s
         else if t = ''chat_message'' \<or> t = ''chat'' then handleChatMessage now payload client s
         else if t = ''vote'' then mp_handleVote now payload client s
         else if t = ''new_game'' then handleNewGame now s
         else if t = ''test_message'' then handleTestMessage now payload client s
         else if t = ''memory_test'' then handleMemoryTest now clientId s
         else if t = ''submit_answer'' then handleSubmitAnswer now client s
         else if t = ''force_phase_transition'' then handleForcePhaseTransition now payload s
         else Inl (UnhandledMessageType t))"

definition error_message :: "error \<Rightarrow> string" where
  "error_message e =
     (case e of
        InvalidJSON \<Rightarrow> ''Invalid JSON message format''
      | MissingType \<Rightarrow> ''Message missing required field: type''
      | MissingTimestamp \<Rightarrow> ''Message missing required field: timestamp''
      | StaleTimestamp \<Rightarrow> ''Message timestamp is too old or invalid''
      | ClientNotFound \<Rightarrow> ''Client not found''
      | UnknownMessageType t \<Rightarrow> ''Unknown message type: '' @ t
      | AuthenticationRequired \<Rightarrow> ''Authentication required for this message type''
      | MissingField f \<Rightarrow> ''Missing required field: '' @ f
      | FieldType f k \<Rightarrow> ''Field '' @ f @ '' must be a '' @ k
      | MessageTooLong \<Rightarrow> ''Message too long (max 500 characters)''
      | InvalidRoomCode \<Rightarrow> ''Invalid room code. Use a 3-digit code (e.g., 123).''
      | InvalidPlayerData \<Rightarrow> ''Missing required player data (playerId, playerName)''
      | PlayerIdRequired what \<Rightarrow> ''Player ID required for '' @ what
      | InvalidPhase m \<Rightarrow> m
      | DuplicateVote \<Rightarrow> ''Player has already voted''
      | InsufficientPlayers \<Rightarrow> ''Need at least 2 players to start game''
      | InvalidPhaseName x \<Rightarrow> ''Invalid phase: '' @ x
      | UnhandledMessageType t \<Rightarrow> ''Unhandled message type: '' @ t
      | TypeError prop \<Rightarrow>
          ''Cannot read properties of undefined (reading '' @ [CHR 0x27] @ prop @ [CHR 0x27] @ '')'')"

definition sendError :: "nat \<Rightarrow> string \<Rightarrow> error \<Rightarrow> sys \<Rightarrow> sys" where
  "sendError now clientId e s =
     snd (sendToClient clientId (ErrorMsg (error_message e) ''PROTOCOL_ERROR'' now) s)"

text \<open>
  \<open>handleMessage\<close>: the raw frame is \<open>None\<close> if it does not parse. Every \<open>throw\<close> of a
  handler comes before the handler has changed anything, so a handler returns an error
  or a new state; the \<open>catch\<close> then sends the error envelope and rethrows. This is the
  call from its start to the point where its promise settles, with no other handler
  running at its awaits.
\<close>

definition handleMessage :: "env \<Rightarrow> string \<Rightarrow> frame option \<Rightarrow> sys \<Rightarrow> error option \<times> sys" where
  "handleMessage e clientId rawMessage s =
     (let outcome =
            (case rawMessage of
               None \<Rightarrow> Inl InvalidJSON
             | Some message \<Rightarrow>
                 (case validateMessageStructure (e_now e) message of
                    Some err \<Rightarrow> Inl err
                  | None \<Rightarrow>
                      (case map_of (clients s) clientId of
                         None \<Rightarrow> Inl ClientNotFound
                       | Some client \<Rightarrow>
                           (case validateMessage message client of
                              Some err \<Rightarrow> Inl err
                            | None \<Rightarrow> routeMessage e clientId message client s))))
      in case outcome of
           Inl err \<Rightarrow> (Some err, sendError (e_now e) clientId err s)
         | Inr s' \<Rightarrow> (None, s'))"

section \<open>GameServer\<close>

definition server_init :: sys where
  "server_init =
     \<lparr>clients = [], pm_players = [], heap = Map.empty, nextRef = 0, rooms = [],
      game = GameManager_init, sockets = (\<lambda>_. \<lparr>so_open = True, so_throws = False\<rparr>),
      outbox = [], tasks = [], microtasks = [], unhandled = []\<rparr>"

text \<open>
  What the event loop hands to the server: a new connection on socket \<open>ws\<close>, a frame, a
  closed connection, a timeout armed by PlayerManager or MessageProtocol, and the timers
  of GameManager. Each event is one turn of the event loop: the callback runs, then the
  microtask queue runs until it is empty.

  The \<open>message\<close> callback starts \<open>handleMessage\<close> and does not await it. \<open>Frame\<close> is a frame
  that is alone in its turn: every \<open>await\<close> of its handler then resumes with no other
  handler in between, which is \<open>handleMessage\<close> above. Two frames that the transport hands
  over within one turn overlap at their awaits; such a turn is not among these events,
  and the runs of the server below deliver each frame in a turn of its own.

  The callback of the timeout armed by \<open>handleToggleReady\<close> calls \<open>handleStartGame\<close> with
  nothing awaiting or catching it: an error it throws is an unhandled rejection.

  The heartbeat interval of PlayerManager (pings and the sweep of stale connections) and
  the HTTP routes of the server are not embedded.
\<close>

datatype server_event =
    Connection nat string nat
  | Frame env string "frame option"
  | Disconnect nat string
  | Task env task
  | PhaseTimer nat nat
  | DiscussionInterval nat nat

fun run_task :: "env \<Rightarrow> task \<Rightarrow> sys \<Rightarrow> sys" where
  "run_task e (RemoveClientTask clientId) s = removeClient clientId s"
| "run_task e (StartGameTask clientId) s =
     (case handleStartGame (e_now e) (e_random e) s of
        Inl err \<Rightarrow> s\<lparr>unhandled := unhandled s @ [err]\<rparr>
      | Inr s' \<Rightarrow> s')"

fun server_step :: "server_event \<Rightarrow> sys \<Rightarrow> sys" where
  "server_step (Connection now clientId ws) s =
     (let s1 = s\<lparr>clients := AList.update clientId
                   \<lparr>c_ws = ws, c_playerId = None, c_playerData = None,
                    c_lastHeartbeat = now, c_connectedAt = now\<rparr> (clients s)\<rparr>
      in drain now (snd (sendToClient clientId
            (ConnectionEstablished clientId (getPublicGameState (game s1)) now) s1)))"
| "server_step (Frame e clientId rawMessage) s =
     drain (e_now e) (snd (handleMessage e clientId rawMessage s))"
| "server_step (Disconnect now clientId) s = drain now (removeClient clientId s)"
| "server_step (Task e t) s =
     (if t \<notin> set (tasks s) then s
      else drain (e_now e) (run_task e t (s\<lparr>tasks := remove1 t (tasks s)\<rparr>)))"
| "server_step (PhaseTimer now h) s =
     (let (ms, g) = timerFires now h (game s) in drain now (gm_broadcast ms (s\<lparr>game := g\<rparr>)))"
| "server_step (DiscussionInterval now h) s =
     (let (ms, g) = intervalTick now h (game s) in drain now (gm_broadcast ms (s\<lparr>game := g\<rparr>)))"

fun server_run :: "server_event list \<Rightarrow> sys \<Rightarrow> sys" where
  "server_run [] s = s"
| "server_run (ev # evs) s = server_run evs (server_step ev s)"

section \<open>Notions used in the properties\<close>


text \<open>Ids for which the tally object behaves like a first-seen list of counters.\<close>

definition plain_id :: "string \<Rightarrow> bool" where
  "plain_id t = (\<not> is_array_index t \<and> t \<notin> set object_prototype_keys)"

text \<open>The distinct elements of a list, each at its first occurrence.\<close>

fun first_seen :: "string list \<Rightarrow> string list" where
  "first_seen [] = []"
| "first_seen (x # xs) = x # filter (\<lambda>y. y \<noteq> x) (first_seen xs)"

text \<open>
  The plurality target in the words of the specification: the first-seen target whose
  count no other count exceeds.
\<close>

definition spec_plurality :: "string list \<Rightarrow> string option" where
  "spec_plurality ts = find (\<lambda>t. \<forall>u\<in>set ts. count_list ts u \<le> count_list ts t) ts"

text \<open>
  Two states that differ at most in the imposter id and in the content of a results
  payload; two events that differ at most in the imposter id handed to the question
  phase; two rows of the \<open>games\<close> table that differ at most in the imposter id.
\<close>

definition same_but_imposter :: "gstate \<Rightarrow> gstate \<Rightarrow> bool" where
  "same_but_imposter g g' =
     (phase g = phase g' \<and> players g = players g' \<and> questionId g = questionId g'
      \<and> discussionEndsAt g = discussionEndsAt g' \<and> votes g = votes g'
      \<and> phaseTimer g = phaseTimer g' \<and> timers g = timers g'
      \<and> intervals g = intervals g' \<and> nextHandle g = nextHandle g'
      \<and> (results g = None) = (results g' = None))"

fun same_event :: "event \<Rightarrow> event \<Rightarrow> bool" where
  "same_event (TransitionPhase now p d) (TransitionPhase now' p' d') =
     (now = now' \<and> p = p' \<and> d_questionId d = d_questionId d')"
| "same_event e e' = (e = e')"

fun same_row :: "game_row option \<Rightarrow> game_row option \<Rightarrow> bool" where
  "same_row None None = True"
| "same_row (Some r) (Some r') =
     (row_phase r = row_phase r' \<and> row_question_id r = row_question_id r')"
| "same_row _ _ = False"

text \<open>No results payload is held while waiting.\<close>

definition waiting_clean :: "gstate \<Rightarrow> bool" where
  "waiting_clean g = (phase g = Waiting \<longrightarrow> results g = None)"

text \<open>
  The parts of the state that sending and scheduling leave alone (all but the outbox and
  the task list), and those that a resumed \<open>removePlayer\<close> leaves alone.
\<close>

definition core ::
  "sys \<Rightarrow> (string \<times> client) list \<times> (string \<times> ref) list \<times> (ref \<Rightarrow> player option) \<times> nat
         \<times> rooms \<times> gstate \<times> (nat \<Rightarrow> socket) \<times> micro list" where
  "core s = (clients s, pm_players s, heap s, nextRef s, rooms s, game s, sockets s,
             microtasks s)"

definition registry ::
  "sys \<Rightarrow> (string \<times> client) list \<times> (string \<times> ref) list \<times> (ref \<Rightarrow> player option) \<times> nat
         \<times> gstate \<times> (nat \<Rightarrow> socket) \<times> micro list" where
  "registry s = (clients s, pm_players s, heap s, nextRef s, game s, sockets s, microtasks s)"

text \<open>A client whose socket is open and accepts a \<open>send\<close>.\<close>

definition takes :: "sys \<Rightarrow> client \<Rightarrow> bool" where
  "takes s c = (so_open (sockets s (c_ws c)) \<and> \<not> so_throws (sockets s (c_ws c)))"

section \<open>Concrete runs\<close>

subsection \<open>Of a GameManager\<close>


definition open_vote_state :: gstate where
  "open_vote_state = run [UpdatePlayers [0, 1], TransitionPhase 5 Voting no_data] GameManager_init"

text \<open>
  Three players are in the room when voting opens, two of them vote, then two players
  leave: \<open>handleLeave\<close> hands the shorter list of active players to \<open>updatePlayers\<close>.
\<close>

definition shrinking_room_events :: "event list" where
  "shrinking_room_events =
     [UpdatePlayers [0, 1, 2], TransitionPhase 5 Voting no_data,
      HandleVote 6 ''a'' ''b'', HandleVote 7 ''b'' ''a'', UpdatePlayers [0]]"

text \<open>A tie between two targets, with plain ids and with numeric ids.\<close>

definition plain_tie_state :: gstate where
  "plain_tie_state =
     run [UpdatePlayers [0, 1, 2],
          TransitionPhase 1 Question \<lparr>d_questionId = Some 1, d_imposter = Some ''p2''\<rparr>,
          TransitionPhase 5 Voting no_data,
          HandleVote 6 ''p1'' ''p2'', HandleVote 7 ''p2'' ''p1''] GameManager_init"

definition numeric_tie_state :: gstate where
  "numeric_tie_state =
     run [UpdatePlayers [0, 1, 2],
          TransitionPhase 1 Question \<lparr>d_questionId = Some 1, d_imposter = Some ''2''\<rparr>,
          TransitionPhase 5 Voting no_data,
          HandleVote 6 ''1'' ''2'', HandleVote 7 ''2'' ''1''] GameManager_init"

text \<open>
  A round is played to its results with \<open>p1\<close> as the imposter, then a
  \<open>force_phase_transition\<close> message moves the session from \<open>results\<close> back to
  \<open>voting\<close>.
\<close>

definition forced_revote_events :: "event list" where
  "forced_revote_events =
     [UpdatePlayers [0, 1],
      TransitionPhase 1 Question \<lparr>d_questionId = Some 1, d_imposter = Some ''p1''\<rparr>,
      TransitionPhase 2 Discussion no_data,
      TransitionPhase 3 Voting no_data,
      HandleVote 4 ''p1'' ''p2'', HandleVote 5 ''p2'' ''p1'',
      TransitionPhase 6 Voting no_data]"

text \<open>The same round up to the first vote, once with each player as the imposter.\<close>

definition round_events :: "string \<Rightarrow> event list" where
  "round_events imp =
     [UpdatePlayers [0, 1],
      TransitionPhase 1 Question \<lparr>d_questionId = Some 1, d_imposter = Some imp\<rparr>,
      TransitionPhase 2 Discussion no_data,
      TransitionPhase 3 Voting no_data,
      HandleVote 4 ''p1'' ''p2'']"

subsection \<open>Of the server\<close>

definition env_at :: "nat \<Rightarrow> env" where
  "env_at now = \<lparr>e_now = now, e_randomId = ''p_x'', e_random = 0\<rparr>"

definition frame_at :: "nat \<Rightarrow> string \<Rightarrow> payload \<Rightarrow> frame" where
  "frame_at now t pl = \<lparr>f_type = t, f_timestamp = int now, f_payload = Some pl\<rparr>"

text \<open>Two connections, nobody has joined; the phase is \<open>waiting\<close>.\<close>

definition lobby_state :: sys where
  "lobby_state = server_run [Connection 1 ''c1'' 1, Connection 2 ''c2'' 2] server_init"

text \<open>One connection, joined as player \<open>p1\<close> in room \<open>123\<close>.\<close>

definition joined_state :: sys where
  "joined_state =
     server_run
       [Connection 1 ''c1'' 1,
        Frame (env_at 2) ''c1''
          (Some (frame_at 2 ''join''
             [(''playerId'', JStr ''p1''), (''playerName'', JStr ''Ann''),
              (''roomCode'', JStr ''123'')]))]
       server_init"

text \<open>Two connections, joined as players \<open>p1\<close> and \<open>p2\<close> in room \<open>123\<close>.\<close>

definition two_player_room :: sys where
  "two_player_room =
     server_run
       [Connection 3 ''c2'' 2,
        Frame (env_at 4) ''c2''
          (Some (frame_at 4 ''join''
             [(''playerId'', JStr ''p2''), (''playerName'', JStr ''Bob''),
              (''roomCode'', JStr ''123'')]))]
       joined_state"

text \<open>
  The player then readies up, the session is moved to \<open>results\<close>, and a \<open>new_game\<close>
  message returns it to \<open>waiting\<close>.
\<close>

definition ready_then_new_game :: sys where
  "ready_then_new_game =
     server_run
       [Frame (env_at 3) ''c1'' (Some (frame_at 3 ''toggle_ready'' [])),
        Frame (env_at 4) ''c1''
          (Some (frame_at 4 ''force_phase_transition'' [(''phase'', JStr ''results'')])),
        Frame (env_at 5) ''c1'' (Some (frame_at 5 ''new_game'' []))]
       joined_state"

section \<open>Properties of GameManager\<close>

lemmas gm_defs = transitionPhase_def handleVote_def clearPhaseTimer_def setTimeout_def
  handleQuestionPhase_def handleDiscussionPhase_def handleVotingPhase_def handleResultsPhase_def
  handleWaitingPhase_def startDiscussionTimer_def updatePlayers_def cleanup_def timerFires_def
  intervalTick_def initializeGame_def GameManager_init_def no_data_def

lemma votes_clearPhaseTimer: "votes (clearPhaseTimer g) = votes g"
  by (simp add: clearPhaseTimer_def split: option.splits)

lemma players_clearPhaseTimer: "players (clearPhaseTimer g) = players g"
  by (simp add: clearPhaseTimer_def split: option.splits)

lemma votes_transitionPhase:
  "votes (snd (transitionPhase now p d g)) = (if p = Voting \<or> p = Waiting then [] else votes g)"
  by (cases p)
     (simp_all add: transitionPhase_def Let_def votes_clearPhaseTimer handleQuestionPhase_def
        handleDiscussionPhase_def handleVotingPhase_def handleResultsPhase_def
        handleWaitingPhase_def setTimeout_def startDiscussionTimer_def split: option.splits)

lemma players_transitionPhase: "players (snd (transitionPhase now p d g)) = players g"
  by (cases p)
     (simp_all add: transitionPhase_def Let_def players_clearPhaseTimer handleQuestionPhase_def
        handleDiscussionPhase_def handleVotingPhase_def handleResultsPhase_def
        handleWaitingPhase_def setTimeout_def startDiscussionTimer_def split: option.splits)

lemma phase_transitionPhase: "phase (snd (transitionPhase now p d g)) = p"
  by (cases p)
     (simp_all add: transitionPhase_def Let_def clearPhaseTimer_def handleQuestionPhase_def
        handleDiscussionPhase_def handleVotingPhase_def handleResultsPhase_def
        handleWaitingPhase_def setTimeout_def startDiscussionTimer_def split: option.splits)

lemma handleVote_Inr_votes:
  assumes "handleVote now voter target g = Inr (ms, g')"
  shows "votes g' = votes g @ [\<lparr>v_playerId = voter, v_targetId = target, v_timestamp = now\<rparr>]"
    and "players g' = players g"
    and "phase g = Voting"
    and "voter \<notin> v_playerId ` set (votes g)"
proof -
  from assms have ph: "phase g = Voting" and nf: "find (\<lambda>v. v_playerId v = voter) (votes g) = None"
    by (auto simp: handleVote_def split: if_splits)
  show "phase g = Voting" by (rule ph)
  from nf show "voter \<notin> v_playerId ` set (votes g)" by (auto simp: find_None_iff)
  let ?g1 = "g\<lparr>votes := votes g @ [\<lparr>v_playerId = voter, v_targetId = target, v_timestamp = now\<rparr>]\<rparr>"
  show "votes g' = votes g @ [\<lparr>v_playerId = voter, v_targetId = target, v_timestamp = now\<rparr>]"
  proof (cases "length (players g) \<le> Suc (length (votes g))")
    case True
    with assms ph nf have "g' = snd (transitionPhase now Results no_data (clearPhaseTimer ?g1))"
      by (simp add: handleVote_def Let_def split: prod.splits)
    then show ?thesis by (simp add: votes_transitionPhase votes_clearPhaseTimer)
  next
    case False
    with assms ph nf have "g' = ?g1" by (simp add: handleVote_def Let_def)
    then show ?thesis by simp
  qed
  show "players g' = players g"
  proof (cases "length (players g) \<le> Suc (length (votes g))")
    case True
    with assms ph nf have "g' = snd (transitionPhase now Results no_data (clearPhaseTimer ?g1))"
      by (simp add: handleVote_def Let_def split: prod.splits)
    then show ?thesis by (simp add: players_transitionPhase players_clearPhaseTimer)
  next
    case False
    with assms ph nf have "g' = ?g1" by (simp add: handleVote_def Let_def)
    then show ?thesis by simp
  qed
qed

lemma votes_timerFires:
  "votes (snd (timerFires now h g)) = votes g \<or> votes (snd (timerFires now h g)) = []"
  by (simp add: timerFires_def votes_transitionPhase split: option.splits prod.splits)

lemma votes_intervalTick: "votes (snd (intervalTick now h g)) = votes g"
  by (simp add: intervalTick_def split: option.splits)

lemma step_votes_distinct:
  assumes d: "distinct (map v_playerId (votes g))"
  shows "distinct (map v_playerId (votes (snd (step e g))))"
proof (cases e)
  case (TransitionPhase now p d)
  then show ?thesis using d by (simp add: votes_transitionPhase)
next
  case (HandleVote now voter target)
  show ?thesis
  proof (cases "handleVote now voter target g")
    case (Inl a)
    then show ?thesis using d HandleVote by simp
  next
    case (Inr r)
    obtain ms g' where r: "r = (ms, g')" by (cases r)
    from handleVote_Inr_votes(1,4)[OF Inr[unfolded r]] d HandleVote Inr r
    show ?thesis by simp
  qed
next
  case (UpdatePlayers ps)
  then show ?thesis using d by (simp add: updatePlayers_def)
next
  case (TimerFires now h)
  then show ?thesis using d votes_timerFires[of now h g] by auto
next
  case (IntervalTick now h)
  then show ?thesis using d by (simp add: votes_intervalTick)
next
  case Cleanup
  then show ?thesis using d by (simp add: cleanup_def votes_clearPhaseTimer)
qed

lemma reachable_votes_distinct: "reachable g \<Longrightarrow> distinct (map v_playerId (votes g))"
proof (induction rule: reachable.induct)
  case (initial gameData)
  then show ?case by (simp add: initializeGame_def GameManager_init_def split: option.splits)
next
  case (after g e)
  from after.IH show ?case by (rule step_votes_distinct)
qed

lemma reachable_run: "reachable g \<Longrightarrow> reachable (run es g)"
  by (induction es arbitrary: g) (auto intro: reachable.after)

lemma reachable_init: "reachable GameManager_init"
  using reachable.initial[of None] by (simp add: initializeGame_def)






lemma handleVote_accepts:
  assumes "phase g = Voting" and "voter \<notin> v_playerId ` set (votes g)"
  shows "handleVote now voter target g = Inr (step (HandleVote now voter target) g)"
proof -
  from assms(2) have "find (\<lambda>v. v_playerId v = voter) (votes g) = None"
    by (auto simp: find_None_iff)
  with assms(1) have "\<exists>r. handleVote now voter target g = Inr r"
    by (simp add: handleVote_def Let_def split: prod.splits)
  then show ?thesis by auto
qed


lemma open_vote_state_eq:
  "open_vote_state =
     \<lparr>phase = Voting, players = [0, 1], imposter = None, questionId = None,
      discussionEndsAt = None, votes = [], results = None, phaseTimer = Some 0,
      timers = [(0, votingTimeout, Results)], intervals = [], nextHandle = 1\<rparr>"
  by (simp add: open_vote_state_def gm_defs Let_def)

text \<open>
  C1 (as the code has it). In every reachable state no voter id occurs twice in
  \<open>votes\<close>. The bound \<open>votes.length \<le> players.length\<close> is kept by an accepted
  \<open>handleVote\<close> that starts with fewer votes than players; \<open>updatePlayers\<close> replaces
  the player list and leaves the collected votes as they are, so it can break the bound.
\<close>

theorem votes_unique_bound_kept_by_handleVote:
  "(reachable g \<longrightarrow> distinct (map v_playerId (votes g)))
   \<and> (handleVote now voter target g = Inr (ms, g') \<and> length (votes g) < length (players g)
        \<longrightarrow> length (votes g') \<le> length (players g'))
   \<and> votes (updatePlayers ps g) = votes g"
proof (intro conjI impI)
  assume "reachable g"
  then show "distinct (map v_playerId (votes g))" by (rule reachable_votes_distinct)
next
  assume a: "handleVote now voter target g = Inr (ms, g') \<and> length (votes g) < length (players g)"
  then show "length (votes g') \<le> length (players g')"
    using handleVote_Inr_votes(1,2)[of now voter target g ms g'] by simp
next
  show "votes (updatePlayers ps g) = votes g" by (simp add: updatePlayers_def)
qed

theorem votes_unique_bound_kept_by_handleVote_witness:
  "reachable open_vote_state
   \<and> distinct (map v_playerId (votes open_vote_state))
   \<and> handleVote 7 ''a'' ''b'' open_vote_state = Inr (step (HandleVote 7 ''a'' ''b'') open_vote_state)
   \<and> length (votes open_vote_state) < length (players open_vote_state)
   \<and> length (votes (snd (step (HandleVote 7 ''a'' ''b'') open_vote_state)))
      \<le> length (players (snd (step (HandleVote 7 ''a'' ''b'') open_vote_state)))"
proof -
  have r: "reachable open_vote_state"
    unfolding open_vote_state_def by (rule reachable_run[OF reachable_init])
  have h: "handleVote 7 ''a'' ''b'' open_vote_state =
        Inr (fst (step (HandleVote 7 ''a'' ''b'') open_vote_state),
             snd (step (HandleVote 7 ''a'' ''b'') open_vote_state))"
  proof -
    have "phase open_vote_state = Voting" by (simp add: open_vote_state_eq)
    moreover have "''a'' \<notin> v_playerId ` set (votes open_vote_state)" by (simp add: open_vote_state_eq)
    ultimately show ?thesis
      using handleVote_accepts[of open_vote_state "''a''" 7 "''b''"] by (simp del: step.simps)
  qed
  have l: "length (votes open_vote_state) < length (players open_vote_state)"
    by (simp add: open_vote_state_eq)
  have c: "distinct (map v_playerId (votes open_vote_state))
      \<and> length (votes (snd (step (HandleVote 7 ''a'' ''b'') open_vote_state)))
        \<le> length (players (snd (step (HandleVote 7 ''a'' ''b'') open_vote_state)))"
    using votes_unique_bound_kept_by_handleVote[of open_vote_state 7 "''a''" "''b''"
      "fst (step (HandleVote 7 ''a'' ''b'') open_vote_state)"
      "snd (step (HandleVote 7 ''a'' ''b'') open_vote_state)"] r h l
    by blast
  have h': "handleVote 7 ''a'' ''b'' open_vote_state =
      Inr (step (HandleVote 7 ''a'' ''b'') open_vote_state)"
    using h by (simp del: step.simps)
  from r h' c l show ?thesis by blast
qed

text \<open>
  C1 as stated fails: after two of three players have voted and two players have left,
  two votes are held against one player.
\<close>

theorem votes_bound_counterexample:
  "reachable (run shrinking_room_events GameManager_init)
   \<and> \<not> length (votes (run shrinking_room_events GameManager_init))
        \<le> length (players (run shrinking_room_events GameManager_init))"
proof -
  have r: "reachable (run shrinking_room_events GameManager_init)"
    by (rule reachable_run[OF reachable_init])
  have "length (votes (run shrinking_room_events GameManager_init)) = 2"
    by (simp add: shrinking_room_events_def gm_defs Let_def)
  moreover have "length (players (run shrinking_room_events GameManager_init)) = 1"
    by (simp add: shrinking_room_events_def gm_defs Let_def)
  ultimately show ?thesis using r by simp
qed



lemma set_first_seen: "set (first_seen xs) = set xs"
  by (induction xs) auto

lemma distinct_first_seen: "distinct (first_seen xs)"
  by (induction xs) (auto simp: set_first_seen)

lemma first_seen_snoc:
  "first_seen (xs @ [k]) = (if k \<in> set xs then first_seen xs else first_seen xs @ [k])"
  by (induction xs) (auto simp: set_first_seen)

lemma find_filter_neq: "\<not> P x \<Longrightarrow> find P (filter (\<lambda>y. y \<noteq> x) ys) = find P ys"
  by (induction ys) auto

lemma find_first_seen: "find P (first_seen xs) = find P xs"
  by (induction xs) (auto simp: find_filter_neq)

lemma insert_key_plain: "\<not> is_array_index k \<Longrightarrow> insert_key k v ps = ps @ [(k, v)]"
  by (induction ps) auto

lemma map_of_tally:
  "map_of (map (\<lambda>t. (t, f t)) ks) k = (if k \<in> set ks then Some (f k) else None)"
  by (induction ks) auto

lemma count_vote_plain:
  assumes "plain_id k"
  shows "count_vote (map (\<lambda>t. (t, Count (count_list xs t))) (first_seen xs)) k =
         map (\<lambda>t. (t, Count (count_list (xs @ [k]) t))) (first_seen (xs @ [k]))"
proof -
  let ?ps = "map (\<lambda>t. (t, Count (count_list xs t))) (first_seen xs)"
  from assms have np: "k \<noteq> ''__proto__''" and nk: "k \<notin> set object_prototype_keys"
    and ni: "\<not> is_array_index k"
    by (auto simp: plain_id_def object_prototype_keys_def)
  have keys: "fst ` set ?ps = set xs" by (force simp: set_first_seen)
  show ?thesis
  proof (cases "k \<in> set xs")
    case True
    then have pos: "count_list xs k \<noteq> 0" by (simp add: count_list_0_iff)
    have nt: "next_tally ?ps k = Count (count_list xs k + 1)"
      using True pos by (simp add: next_tally_def map_of_tally set_first_seen)
    have "obj_set ?ps k (Count (count_list xs k + 1)) =
          map (\<lambda>(k', v'). if k' = k then (k', Count (count_list xs k + 1)) else (k', v')) ?ps"
      using np True keys by (simp add: obj_set_def)
    also have "\<dots> = map (\<lambda>t. (t, Count (count_list (xs @ [k]) t))) (first_seen xs)"
      by (auto simp: )
    finally show ?thesis using True nt by (simp add: count_vote_def first_seen_snoc)
  next
    case False
    then have z: "count_list xs k = 0" by (simp add: count_list_0_iff)
    have nt: "next_tally ?ps k = Count 1"
      using False nk by (simp add: next_tally_def map_of_tally set_first_seen)
    have os: "obj_set ?ps k (Count 1) = ?ps @ [(k, Count 1)]"
      using np False keys ni by (simp add: obj_set_def insert_key_plain)
    have same: "map (\<lambda>t. (t, Count (count_list (xs @ [k]) t))) (first_seen xs) = ?ps"
      using False by (auto simp: set_first_seen)
    have "map (\<lambda>t. (t, Count (count_list (xs @ [k]) t))) (first_seen (xs @ [k])) =
          map (\<lambda>t. (t, Count (count_list (xs @ [k]) t))) (first_seen xs) @
            [(k, Count (count_list (xs @ [k]) k))]"
      using False by (simp add: first_seen_snoc)
    also have "\<dots> = ?ps @ [(k, Count 1)]"
      unfolding same using z by simp
    finally show ?thesis unfolding count_vote_def nt os by simp
  qed
qed

lemma tally_plain:
  "list_all plain_id ts \<Longrightarrow>
   foldl count_vote [] ts = map (\<lambda>t. (t, Count (count_list ts t))) (first_seen ts)"
proof (induction ts rule: rev_induct)
  case Nil
  then show ?case by simp
next
  case (snoc k ts)
  then show ?case using count_vote_plain[of k ts] by simp
qed

lemma exists_max: "ks \<noteq> [] \<Longrightarrow> \<exists>t\<in>set ks. \<forall>u\<in>set ks. (c u :: nat) \<le> c t"
proof (induction ks)
  case Nil
  then show ?case by simp
next
  case (Cons k ks)
  show ?case
  proof (cases "ks = []")
    case True
    then show ?thesis by simp
  next
    case False
    with Cons obtain t where t: "t \<in> set ks" "\<forall>u\<in>set ks. c u \<le> c t" by auto
    show ?thesis
    proof (cases "c k \<le> c t")
      case True
      with t show ?thesis by auto
    next
      case False
      with t have "\<forall>u\<in>set (k # ks). c u \<le> c k" by auto
      then show ?thesis by auto
    qed
  qed
qed

lemma most_voted_first_max:
  "fst (most_voted (map (\<lambda>t. (t, Count (c t))) ks) (b, m)) =
     (case find (\<lambda>t. m < c t \<and> (\<forall>u\<in>set ks. c u \<le> c t)) ks of Some t \<Rightarrow> Some t | None \<Rightarrow> b)"
proof (induction ks arbitrary: b m)
  case Nil
  then show ?case by simp
next
  case (Cons k ks)
  show ?case
  proof (cases "m < c k")
    case gt: True
    show ?thesis
    proof (cases "\<forall>u\<in>set ks. c u \<le> c k")
      case True
      then have "find (\<lambda>t. c k < c t \<and> (\<forall>u\<in>set ks. c u \<le> c t)) ks = None"
        by (auto simp: find_None_iff)
      then show ?thesis using gt True Cons.IH[of "Some k" "c k"] by simp
    next
      case False
      then obtain u where u: "u \<in> set ks" "c k < c u" by auto
      then have "ks \<noteq> []" by auto
      from exists_max[OF this, of c] obtain t where t: "t \<in> set ks" "\<forall>u\<in>set ks. c u \<le> c t"
        by auto
      with u have "c k < c t" by force
      with t have "find (\<lambda>t. c k < c t \<and> (\<forall>u\<in>set ks. c u \<le> c t)) ks \<noteq> None"
        by (auto simp: find_None_iff)
      moreover have "find (\<lambda>t. c k < c t \<and> (\<forall>u\<in>set ks. c u \<le> c t)) ks =
                     find (\<lambda>t. m < c t \<and> (\<forall>u\<in>set (k # ks). c u \<le> c t)) ks"
        using gt u by (intro find_cong) (auto intro: less_imp_le)
      ultimately show ?thesis using gt False Cons.IH[of "Some k" "c k"] by auto
    qed
  next
    case le: False
    have "find (\<lambda>t. m < c t \<and> (\<forall>u\<in>set ks. c u \<le> c t)) ks =
          find (\<lambda>t. m < c t \<and> (\<forall>u\<in>set (k # ks). c u \<le> c t)) ks"
      using le by (intro find_cong) auto
    then show ?thesis using le Cons.IH[of b m] by simp
  qed
qed

lemma most_voted_plain:
  assumes "list_all plain_id ts"
  shows "fst (most_voted (foldl count_vote [] ts) (None, 0)) = spec_plurality ts"
proof -
  let ?c = "count_list ts"
  have "fst (most_voted (foldl count_vote [] ts) (None, 0)) =
        (case find (\<lambda>t. 0 < ?c t \<and> (\<forall>u\<in>set (first_seen ts). ?c u \<le> ?c t)) (first_seen ts)
         of Some t \<Rightarrow> Some t | None \<Rightarrow> None)"
    by (simp only: tally_plain[OF assms] most_voted_first_max)
  also have "\<dots> = find (\<lambda>t. 0 < ?c t \<and> (\<forall>u\<in>set ts. ?c u \<le> ?c t)) (first_seen ts)"
    by (simp add: set_first_seen split: option.splits)
  also have "\<dots> = find (\<lambda>t. 0 < ?c t \<and> (\<forall>u\<in>set ts. ?c u \<le> ?c t)) ts"
    by (rule find_first_seen)
  also have "\<dots> = find (\<lambda>t. \<forall>u\<in>set ts. ?c u \<le> ?c t) ts"
  proof (intro find_cong refl)
    fix t assume "t \<in> set ts"
    then have "0 < ?c t" using count_list_0_iff[of ts t] by auto
    then show "(0 < ?c t \<and> (\<forall>u\<in>set ts. ?c u \<le> ?c t)) = (\<forall>u\<in>set ts. ?c u \<le> ?c t)"
      by simp
  qed
  finally show ?thesis by (simp add: spec_plurality_def)
qed

lemmas tally_defs = count_vote_def obj_set_def next_tally_def object_prototype_keys_def
  is_array_index_def is_digit_def dec_val_def

text \<open>
  C2 (as the code has it). When no target id is an array index and none names a property
  of \<open>Object.prototype\<close>, \<open>calculateVoteResults\<close> holds one count per target, in
  first-seen order; the plurality target is the first-seen target with the highest count;
  \<open>playersWon\<close> holds exactly when the plurality target is the imposter; and the payload
  carries the counts, the plurality target, the imposter id, the flag and the number of
  votes.
\<close>

theorem calculateVoteResults_plain_ids:
  assumes "list_all plain_id (map v_targetId (votes g))"
  shows "voteCounts (calculateVoteResults g) =
           map (\<lambda>t. (t, Count (count_list (map v_targetId (votes g)) t)))
               (first_seen (map v_targetId (votes g)))
       \<and> mostVotedPlayer (calculateVoteResults g) = spec_plurality (map v_targetId (votes g))
       \<and> playersWon (calculateVoteResults g) = (mostVotedPlayer (calculateVoteResults g) = imposter g)
       \<and> r_imposter (calculateVoteResults g) = imposter g
       \<and> totalVotes (calculateVoteResults g) = length (votes g)"
  using tally_plain[OF assms] most_voted_plain[OF assms]
  by (simp add: calculateVoteResults_def Let_def)

lemma plain_tie_votes:
  "votes plain_tie_state =
     [\<lparr>v_playerId = ''p1'', v_targetId = ''p2'', v_timestamp = 6\<rparr>,
      \<lparr>v_playerId = ''p2'', v_targetId = ''p1'', v_timestamp = 7\<rparr>]"
  "imposter plain_tie_state = Some ''p2''"
  by (simp_all add: plain_tie_state_def gm_defs Let_def)

lemma numeric_tie_votes:
  "votes numeric_tie_state =
     [\<lparr>v_playerId = ''1'', v_targetId = ''2'', v_timestamp = 6\<rparr>,
      \<lparr>v_playerId = ''2'', v_targetId = ''1'', v_timestamp = 7\<rparr>]"
  "imposter numeric_tie_state = Some ''2''"
  by (simp_all add: numeric_tie_state_def gm_defs Let_def)

theorem calculateVoteResults_plain_ids_witness:
  "list_all plain_id (map v_targetId (votes plain_tie_state))
   \<and> voteCounts (calculateVoteResults plain_tie_state) = [(''p2'', Count 1), (''p1'', Count 1)]
   \<and> mostVotedPlayer (calculateVoteResults plain_tie_state) = Some ''p2''
   \<and> playersWon (calculateVoteResults plain_tie_state)"
proof -
  have p: "list_all plain_id (map v_targetId (votes plain_tie_state))"
    by (simp add: plain_tie_votes plain_id_def tally_defs)
  have s: "spec_plurality (map v_targetId (votes plain_tie_state)) = Some ''p2''"
    by (simp add: plain_tie_votes spec_plurality_def)
  from calculateVoteResults_plain_ids[OF p] p s show ?thesis
    by (simp add: plain_tie_votes)
qed

text \<open>
  C2 as stated fails for ids that are array indices: the object lists such keys in
  ascending numeric order, whatever the order of arrival. Votes for \<open>2\<close> and then for
  \<open>1\<close> tie; the first-seen target is \<open>2\<close>, the imposter, and the code names \<open>1\<close>.
\<close>

theorem first_seen_tie_break_counterexample:
  "reachable numeric_tie_state
   \<and> spec_plurality (map v_targetId (votes numeric_tie_state)) = Some ''2''
   \<and> imposter numeric_tie_state = Some ''2''
   \<and> mostVotedPlayer (calculateVoteResults numeric_tie_state) = Some ''1''
   \<and> \<not> playersWon (calculateVoteResults numeric_tie_state)"
proof -
  have r: "reachable numeric_tie_state"
    unfolding numeric_tie_state_def by (rule reachable_run[OF reachable_init])
  have s: "spec_plurality (map v_targetId (votes numeric_tie_state)) = Some ''2''"
    by (simp add: numeric_tie_votes spec_plurality_def)
  have t: "foldl count_vote [] (map v_targetId (votes numeric_tie_state)) =
           [(''1'', Count 1), (''2'', Count 1)]"
    by (simp add: numeric_tie_votes tally_defs)
  have m: "mostVotedPlayer (calculateVoteResults numeric_tie_state) = Some ''1''"
    by (simp add: calculateVoteResults_def Let_def t)
  have "playersWon (calculateVoteResults numeric_tie_state) =
        (mostVotedPlayer (calculateVoteResults numeric_tie_state) = imposter numeric_tie_state)"
    by (simp add: calculateVoteResults_def Let_def)
  then have w: "\<not> playersWon (calculateVoteResults numeric_tie_state)"
    by (simp add: m numeric_tie_votes(2))
  from r s m w numeric_tie_votes(2) show ?thesis by blast
qed

lemma same_but_imposter_clearPhaseTimer:
  "same_but_imposter g g' \<Longrightarrow> same_but_imposter (clearPhaseTimer g) (clearPhaseTimer g')"
  by (auto simp: same_but_imposter_def clearPhaseTimer_def split: option.splits)

lemma same_but_imposter_transitionPhase:
  assumes "same_but_imposter g g'" and "d_questionId d = d_questionId d'"
  shows "same_but_imposter (snd (transitionPhase now p d g)) (snd (transitionPhase now p d' g'))"
proof -
  have "same_but_imposter (g\<lparr>phase := p\<rparr>) (g'\<lparr>phase := p\<rparr>)"
    using assms(1) by (simp add: same_but_imposter_def)
  then have c: "same_but_imposter (clearPhaseTimer (g\<lparr>phase := p\<rparr>)) (clearPhaseTimer (g'\<lparr>phase := p\<rparr>))"
    by (rule same_but_imposter_clearPhaseTimer)
  show ?thesis
    using c assms(2)
    by (cases p)
       (auto simp: transitionPhase_def Let_def same_but_imposter_def handleQuestionPhase_def
          handleDiscussionPhase_def handleVotingPhase_def handleResultsPhase_def
          handleWaitingPhase_def setTimeout_def startDiscussionTimer_def split: option.splits)
qed

lemma step_HandleVote_state:
  "snd (step (HandleVote now voter target) g) =
     (if phase g \<noteq> Voting \<or> find (\<lambda>v. v_playerId v = voter) (votes g) \<noteq> None then g
      else if length (players g) \<le> Suc (length (votes g))
           then snd (transitionPhase now Results no_data
                  (clearPhaseTimer (g\<lparr>votes := votes g @
                     [\<lparr>v_playerId = voter, v_targetId = target, v_timestamp = now\<rparr>]\<rparr>)))
           else g\<lparr>votes := votes g @
                     [\<lparr>v_playerId = voter, v_targetId = target, v_timestamp = now\<rparr>]\<rparr>)"
  by (simp add: handleVote_def Let_def split: prod.splits)

lemma same_but_imposter_handleVote:
  assumes "same_but_imposter g g'"
  shows "same_but_imposter (snd (step (HandleVote now voter target) g))
                           (snd (step (HandleVote now voter target) g'))"
proof -
  let ?v = "\<lparr>v_playerId = voter, v_targetId = target, v_timestamp = now\<rparr>"
  have eqs: "phase g = phase g'" "votes g = votes g'" "players g = players g'"
    using assms by (simp_all add: same_but_imposter_def)
  have s1: "same_but_imposter (g\<lparr>votes := votes g @ [?v]\<rparr>) (g'\<lparr>votes := votes g' @ [?v]\<rparr>)"
    using assms by (simp add: same_but_imposter_def)
  note s2 = same_but_imposter_transitionPhase[OF same_but_imposter_clearPhaseTimer[OF s1] refl,
      of now Results no_data]
  show ?thesis
    unfolding step_HandleVote_state using assms s1 s2 eqs by simp
qed

lemma same_but_imposter_step:
  assumes s: "same_but_imposter g g'" and e: "same_event e e'"
  shows "same_but_imposter (snd (step e g)) (snd (step e' g'))"
proof (cases e)
  case (TransitionPhase now p d)
  with e obtain d' where "e' = TransitionPhase now p d'" "d_questionId d = d_questionId d'"
    by (cases e') auto
  with TransitionPhase show ?thesis using same_but_imposter_transitionPhase[OF s] by simp
next
  case (HandleVote now voter target)
  with e have "e' = e" by simp
  with HandleVote show ?thesis using same_but_imposter_handleVote[OF s] by simp
next
  case (UpdatePlayers ps)
  with e have "e' = e" by simp
  with UpdatePlayers show ?thesis using s by (simp add: updatePlayers_def same_but_imposter_def)
next
  case (TimerFires now h)
  with e have e': "e' = e" by simp
  have t: "timers g = timers g'" using s by (simp add: same_but_imposter_def)
  have "same_but_imposter (g\<lparr>timers := filter (\<lambda>t. fst t \<noteq> h) (timers g)\<rparr>)
                          (g'\<lparr>timers := filter (\<lambda>t. fst t \<noteq> h) (timers g')\<rparr>)"
    using s by (simp add: same_but_imposter_def)
  from same_but_imposter_transitionPhase[OF this refl] s t TimerFires e' show ?thesis
    by (simp add: timerFires_def split: option.splits prod.splits)
next
  case (IntervalTick now h)
  with e have "e' = e" by simp
  with IntervalTick show ?thesis using s
    by (auto simp: intervalTick_def same_but_imposter_def split: option.splits)
next
  case Cleanup
  with e have "e' = e" by simp
  with Cleanup show ?thesis using same_but_imposter_clearPhaseTimer[OF s] by (simp add: cleanup_def)
qed

lemma same_but_imposter_run:
  "list_all2 same_event es es' \<Longrightarrow> same_but_imposter g g' \<Longrightarrow>
   same_but_imposter (run es g) (run es' g')"
proof (induction es es' arbitrary: g g' rule: list_all2_induct)
  case Nil
  then show ?case by simp
next
  case (Cons e es e' es')
  then show ?case using same_but_imposter_step by simp
qed

lemma same_but_imposter_initial:
  "same_row row row' \<Longrightarrow>
   same_but_imposter (initializeGame row GameManager_init) (initializeGame row' GameManager_init)"
  by (cases "(row, row')" rule: same_row.cases)
     (simp_all add: same_but_imposter_def initializeGame_def GameManager_init_def)

lemma results_transitionPhase:
  "p \<noteq> Results \<Longrightarrow> results (snd (transitionPhase now p d g)) = (if p = Waiting then None else results g)"
  by (cases p)
     (simp_all add: transitionPhase_def Let_def clearPhaseTimer_def handleQuestionPhase_def
        handleDiscussionPhase_def handleVotingPhase_def handleResultsPhase_def
        handleWaitingPhase_def setTimeout_def startDiscussionTimer_def split: option.splits)

lemma waiting_clean_transitionPhase: "waiting_clean (snd (transitionPhase now p d g))"
  by (cases "p = Waiting") (simp_all add: waiting_clean_def phase_transitionPhase results_transitionPhase)

lemma waiting_clean_step:
  assumes w: "waiting_clean g"
  shows "waiting_clean (snd (step e g))"
proof (cases e)
  case (TransitionPhase now p d)
  then show ?thesis by (simp add: waiting_clean_transitionPhase)
next
  case (HandleVote now voter target)
  show ?thesis
    unfolding HandleVote step_HandleVote_state
    using w waiting_clean_transitionPhase by (auto simp: waiting_clean_def)
next
  case (UpdatePlayers ps)
  then show ?thesis using w by (simp add: updatePlayers_def waiting_clean_def)
next
  case (TimerFires now h)
  then show ?thesis using w
    by (simp add: timerFires_def waiting_clean_transitionPhase split: option.splits prod.splits)
next
  case (IntervalTick now h)
  then show ?thesis using w by (simp add: intervalTick_def waiting_clean_def split: option.splits)
next
  case Cleanup
  then show ?thesis using w
    by (simp add: cleanup_def clearPhaseTimer_def waiting_clean_def split: option.splits)
qed

lemma reachable_waiting_clean: "reachable g \<Longrightarrow> waiting_clean g"
proof (induction rule: reachable.induct)
  case (initial gameData)
  then show ?case
    by (simp add: waiting_clean_def initializeGame_def GameManager_init_def split: option.splits)
next
  case (after g e)
  from after.IH show ?case by (rule waiting_clean_step)
qed

text \<open>
  C5 (as the code has it). Take two runs of a GameManager that receive the same events
  and differ only in the imposter id (chosen at \<open>start_game\<close> or read from the
  database). After them the two public views agree in every field other than
  \<open>results\<close>, and \<open>results\<close> is null in both or in neither: the view shows the
  imposter id nowhere but in a results payload. While the phase is \<open>waiting\<close> the
  payload is null.
\<close>

theorem public_view_imposter_only_in_results:
  assumes "list_all2 same_event es es'" and "same_row row row'"
  shows "(getPublicGameState (run es (initializeGame row GameManager_init)))\<lparr>pv_results := None\<rparr>
           = (getPublicGameState (run es' (initializeGame row' GameManager_init)))\<lparr>pv_results := None\<rparr>
       \<and> (pv_results (getPublicGameState (run es (initializeGame row GameManager_init))) = None)
           = (pv_results (getPublicGameState (run es' (initializeGame row' GameManager_init))) = None)
       \<and> (pv_phase (getPublicGameState (run es (initializeGame row GameManager_init))) = Waiting
            \<longrightarrow> pv_results (getPublicGameState (run es (initializeGame row GameManager_init))) = None)"
proof -
  let ?g = "run es (initializeGame row GameManager_init)"
  let ?g' = "run es' (initializeGame row' GameManager_init)"
  have "same_but_imposter ?g ?g'"
    by (rule same_but_imposter_run[OF assms(1) same_but_imposter_initial[OF assms(2)]])
  then have a: "(getPublicGameState ?g)\<lparr>pv_results := None\<rparr> = (getPublicGameState ?g')\<lparr>pv_results := None\<rparr>"
    and b: "(pv_results (getPublicGameState ?g) = None) = (pv_results (getPublicGameState ?g') = None)"
    by (simp_all add: same_but_imposter_def getPublicGameState_def)
  have "reachable ?g" by (rule reachable_run[OF reachable.initial])
  then have "waiting_clean ?g" by (rule reachable_waiting_clean)
  then have c: "pv_phase (getPublicGameState ?g) = Waiting \<longrightarrow> pv_results (getPublicGameState ?g) = None"
    by (simp add: waiting_clean_def getPublicGameState_def)
  from a b c show ?thesis by blast
qed

theorem public_view_imposter_only_in_results_witness:
  "list_all2 same_event (round_events ''p1'') (round_events ''p2'')
   \<and> same_row None None
   \<and> imposter (run (round_events ''p1'') (initializeGame None GameManager_init)) = Some ''p1''
   \<and> imposter (run (round_events ''p2'') (initializeGame None GameManager_init)) = Some ''p2''
   \<and> (getPublicGameState (run (round_events ''p1'') (initializeGame None GameManager_init)))\<lparr>pv_results := None\<rparr>
       = (getPublicGameState (run (round_events ''p2'') (initializeGame None GameManager_init)))\<lparr>pv_results := None\<rparr>"
proof -
  have e: "list_all2 same_event (round_events ''p1'') (round_events ''p2'')"
    by (simp add: round_events_def)
  have r: "same_row None None" by simp
  have i1: "imposter (run (round_events ''p1'') (initializeGame None GameManager_init)) = Some ''p1''"
    by (simp add: round_events_def gm_defs Let_def)
  have i2: "imposter (run (round_events ''p2'') (initializeGame None GameManager_init)) = Some ''p2''"
    by (simp add: round_events_def gm_defs Let_def)
  from public_view_imposter_only_in_results[OF e r] e r i1 i2 show ?thesis by blast
qed

text \<open>
  C5 as stated fails in the voting phase: any joined player may send
  \<open>force_phase_transition\<close>, and leaving \<open>results\<close> for \<open>voting\<close> keeps the payload
  of the round that has just ended, imposter id included.
\<close>

theorem public_view_voting_counterexample:
  "reachable (run forced_revote_events GameManager_init)
   \<and> pv_phase (getPublicGameState (run forced_revote_events GameManager_init)) = Voting
   \<and> imposter (run forced_revote_events GameManager_init) = Some ''p1''
   \<and> map_option r_imposter (pv_results (getPublicGameState (run forced_revote_events GameManager_init)))
       = Some (Some ''p1'')"
proof -
  have r: "reachable (run forced_revote_events GameManager_init)"
    by (rule reachable_run[OF reachable_init])
  have p: "pv_phase (getPublicGameState (run forced_revote_events GameManager_init)) = Voting"
    by (simp add: forced_revote_events_def gm_defs Let_def getPublicGameState_def)
  have i: "imposter (run forced_revote_events GameManager_init) = Some ''p1''"
    by (simp add: forced_revote_events_def gm_defs Let_def)
  have v: "map_option r_imposter (pv_results (getPublicGameState (run forced_revote_events GameManager_init)))
       = Some (Some ''p1'')"
    by (simp add: forced_revote_events_def gm_defs Let_def getPublicGameState_def calculateVoteResults_def)
  from r p i v show ?thesis by blast
qed

section \<open>Properties of the server\<close>

lemma foldl_keeps: "(\<And>s x. g (f s x) = g s) \<Longrightarrow> g (foldl f s xs) = g s"
  by (induction xs arbitrary: s) auto

lemma core_deliver: "core (deliver clientId c m s) = core s"
  by (simp add: core_def deliver_def ws_send_def schedule_def)

lemma core_schedule: "core (schedule t s) = core s"
  by (simp add: core_def schedule_def)

lemma core_broadcastToAll: "core (broadcastToAll m s) = core s"
  unfolding broadcastToAll_def by (rule foldl_keeps) (rule core_deliver)

lemma core_broadcastToRoom: "core (broadcastToRoom code m s) = core s"
proof (cases "map_of (rooms s) code")
  case None
  then show ?thesis by (simp add: broadcastToRoom_def)
next
  case (Some r)
  have "core (foldl (\<lambda>s' clientId.
                   case map_of (clients s') clientId of
                     Some c \<Rightarrow> deliver clientId c m s'
                   | None \<Rightarrow> schedule (RemoveClientTask clientId) s') s (r_clients r)) = core s"
    by (rule foldl_keeps) (simp add: core_deliver core_schedule split: option.splits)
  then show ?thesis using Some by (simp add: broadcastToRoom_def)
qed

lemma core_broadcastPlayerList: "core (broadcastPlayerList now roomCode s) = core s"
  by (simp add: broadcastPlayerList_def Let_def core_broadcastToAll core_broadcastToRoom)


lemma core_fields:
  assumes "core s' = core s"
  shows "clients s' = clients s" "pm_players s' = pm_players s" "heap s' = heap s"
    "nextRef s' = nextRef s" "rooms s' = rooms s" "game s' = game s" "sockets s' = sockets s"
    "microtasks s' = microtasks s"
  using assms by (simp_all add: core_def)

lemma outbox_deliver:
  "outbox (deliver clientId c m s) = outbox s @ (if takes s c then [(c_ws c, m)] else [])"
  by (simp add: deliver_def ws_send_def schedule_def takes_def)

lemma sockets_deliver: "sockets (deliver clientId c m s) = sockets s"
  using core_fields(7)[OF core_deliver] .

lemma outbox_foldl_deliver:
  "outbox (foldl (\<lambda>s' c. deliver (fst c) (snd c) m s') s cs) =
     outbox s @ map (\<lambda>c. (c_ws (snd c), m)) (filter (\<lambda>c. takes s (snd c)) cs)"
proof (induction cs arbitrary: s)
  case Nil
  then show ?case by simp
next
  case (Cons c cs)
  have t: "\<And>x. takes (deliver (fst c) (snd c) m s) x = takes s x"
    by (simp add: takes_def sockets_deliver)
  show ?case by (simp add: Cons.IH outbox_deliver t)
qed

lemma outbox_broadcastToAll:
  "outbox (broadcastToAll m s) =
     outbox s @ map (\<lambda>c. (c_ws (snd c), m)) (filter (\<lambda>c. takes s (snd c)) (clients s))"
  by (simp add: broadcastToAll_def outbox_foldl_deliver)

lemma sendToClient_takes:
  assumes "map_of (clients s) clientId = Some c" and "takes s c"
  shows "sendToClient clientId m s = (True, s\<lparr>outbox := outbox s @ [(c_ws c, m)]\<rparr>)"
  using assms by (simp add: sendToClient_def ws_send_def takes_def)

lemma registry_core: "core s' = core s \<Longrightarrow> registry s' = registry s"
  by (simp add: core_def registry_def)

lemma registry_run_micro: "registry (run_micro now m s) = registry s"
proof (cases m)
  case (RemovePlayerCont pid roomCode)
  have a: "registry (broadcastPlayerList now None s) = registry s"
    by (rule registry_core[OF core_broadcastPlayerList])
  have b: "\<And>code. registry (broadcastPlayerList now (Some code)
                (s\<lparr>rooms := removePlayerFromRoom code pid (rooms s)\<rparr>)) = registry s"
    using registry_core[OF core_broadcastPlayerList] by (simp add: registry_def)
  show ?thesis using RemovePlayerCont a b by (simp split: option.splits)
next
  case (PhaseChangeCont newPhase previousPhase)
  then show ?thesis by (simp add: registry_core[OF core_broadcastToAll])
qed

lemma registry_drain:
  "registry (drain now s) = registry (s\<lparr>microtasks := []\<rparr>)"
  unfolding drain_def by (rule foldl_keeps) (rule registry_run_micro)

lemma drain_nothing_pending: "microtasks s = [] \<Longrightarrow> drain now s = s"
  by (simp add: drain_def)

lemma drain_fields:
  "microtasks (drain now s) = []" "pm_players (drain now s) = pm_players s"
  "heap (drain now s) = heap s" "clients (drain now s) = clients s"
  "game (drain now s) = game s"
  using registry_drain[of now s] by (simp_all add: registry_def)

lemma removePlayer_sync_absent:
  "map_of (pm_players s) pid = None \<Longrightarrow> removePlayer_sync pid s = s"
  by (simp add: removePlayer_sync.simps)

lemma removePlayer_sync_dangling:
  "map_of (pm_players s) pid = Some r \<Longrightarrow> heap s r = None \<Longrightarrow> removePlayer_sync pid s = s"
  by (simp add: removePlayer_sync.simps)

lemma removePlayer_sync_removes:
  assumes "map_of (pm_players s) pid = Some r" and "heap s r = Some p"
  shows "map_of (pm_players (removePlayer_sync pid s)) pid = None"
  using assms by (simp add: removePlayer_sync.simps Let_def AList.delete_conv')

text \<open>
  A further \<open>removePlayer\<close> for the same id, called after a removal has completed, returns
  without an error and leaves the whole state of the server as that removal left it: no
  map changes, nothing is sent, nothing is scheduled.
\<close>

lemma removePlayer_after_removal:
  "removePlayer now' pid (removePlayer now pid s) = removePlayer now pid s"
proof -
  let ?s1 = "removePlayer now pid s"
  have m: "microtasks ?s1 = []" by (simp add: removePlayer_def drain_fields)
  have "removePlayer_sync pid ?s1 = ?s1"
  proof (cases "map_of (pm_players s) pid")
    case None
    then have "map_of (pm_players ?s1) pid = None"
      by (simp add: removePlayer_def drain_fields removePlayer_sync_absent)
    then show ?thesis by (rule removePlayer_sync_absent)
  next
    case (Some r)
    show ?thesis
    proof (cases "heap s r")
      case None
      with Some have "map_of (pm_players ?s1) pid = Some r" "heap ?s1 r = None"
        by (simp_all add: removePlayer_def drain_fields removePlayer_sync_dangling)
      then show ?thesis by (rule removePlayer_sync_dangling)
    next
      case (Some p)
      with \<open>map_of (pm_players s) pid = Some r\<close>
      have "map_of (pm_players ?s1) pid = None"
        unfolding removePlayer_def drain_fields by (rule removePlayer_sync_removes)
      then show ?thesis by (rule removePlayer_sync_absent)
    qed
  qed
  then show ?thesis
    using m by (simp add: removePlayer_def[of now' pid ?s1] drain_nothing_pending)
qed

lemma handleMessage_routed:
  assumes "validateMessageStructure (e_now e) fr = None"
    and "map_of (clients s) cid = Some c"
    and "validateMessage fr c = None"
  shows "handleMessage e cid (Some fr) s =
           (case routeMessage e cid fr c s of
              Inl err \<Rightarrow> (Some err, sendError (e_now e) cid err s)
            | Inr s' \<Rightarrow> (None, s'))"
  using assms by (simp add: handleMessage_def)

lemma sendError_takes:
  assumes "map_of (clients s) cid = Some c" and "takes s c"
  shows "sendError now cid err s =
           s\<lparr>outbox := outbox s @ [(c_ws c, ErrorMsg (error_message err) ''PROTOCOL_ERROR'' now)]\<rparr>"
  by (simp add: sendError_def sendToClient_takes[OF assms])

lemma validateMessage_chat:
  assumes "f_type fr = ''chat'' \<or> f_type fr = ''chat_message''"
    and "f_payload fr = Some pl" and "map_of pl ''message'' = Some (JStr m)" and "length m \<le> 500"
  shows "validateMessage fr c = None"
  using assms by (auto simp: validateMessage_def messageTypes_def)

lemma routeMessage_chat:
  assumes "f_type fr = ''chat'' \<or> f_type fr = ''chat_message''"
  shows "routeMessage e cid fr c s = handleChatMessage (e_now e) (f_payload fr) c s"
  using assms by (auto simp: routeMessage_def Let_def)

lemma truthy_or_default: "truthy d \<Longrightarrow> truthy (or_default x d)"
  by (simp add: or_default_def split: option.splits)

lemma handleChatMessage_not_joined:
  assumes "c_playerId c = None"
  shows "handleChatMessage now (Some pl) c s =
     Inr (broadcastToAll
            (ChatMessage (or_default (map_of pl ''playerId'') (JStr ''anonymous''))
                         (or_default (map_of pl ''playerName'') (JStr ''Anonymous''))
                         (map_of pl ''message'') now) s)"
  using assms
  by (simp add: handleChatMessage_def getPlayerById_def Let_def truthy_or_default)

lemma handleChatMessage_broadcasts:
  "\<exists>pid pname. handleChatMessage now (Some pl) c s =
     Inr (broadcastToAll (ChatMessage pid pname (map_of pl ''message'') now) s)"
  by (auto simp: handleChatMessage_def Let_def)

lemma handleMessage_chat:
  assumes "map_of (clients s) cid = Some c"
    and "f_type fr = ''chat'' \<or> f_type fr = ''chat_message''"
    and "validateMessageStructure (e_now e) fr = None"
    and "f_payload fr = Some pl" and "map_of pl ''message'' = Some (JStr m)" and "length m \<le> 500"
  shows "\<exists>pid pname. handleMessage e cid (Some fr) s =
           (None, broadcastToAll (ChatMessage pid pname (Some (JStr m)) (e_now e)) s)"
proof -
  from handleChatMessage_broadcasts[of "e_now e" pl c s] obtain pid pname where
    h: "handleChatMessage (e_now e) (Some pl) c s =
          Inr (broadcastToAll (ChatMessage pid pname (map_of pl ''message'') (e_now e)) s)"
    by blast
  have "handleMessage e cid (Some fr) s =
          (None, broadcastToAll (ChatMessage pid pname (Some (JStr m)) (e_now e)) s)"
    using handleMessage_routed[OF assms(3) assms(1) validateMessage_chat[OF assms(2,4,5,6)]]
      routeMessage_chat[OF assms(2), of e cid c s] h assms(4,5)
    by simp
  then show ?thesis by blast
qed

text \<open>
  C6 (as the code has it). The chat handler is not gated by the phase: whatever the phase
  is, a well-formed \<open>chat\<close> or \<open>chat_message\<close> frame of a registered connection is
  accepted, the game state stays as it is, and one \<open>chat_message\<close> envelope goes to
  every connection whose socket is open and takes it.
\<close>

theorem chat_broadcast_in_every_phase:
  assumes "map_of (clients s) cid = Some c"
    and "f_type fr = ''chat'' \<or> f_type fr = ''chat_message''"
    and "validateMessageStructure (e_now e) fr = None"
    and "f_payload fr = Some pl" and "map_of pl ''message'' = Some (JStr m)" and "length m \<le> 500"
  shows "fst (handleMessage e cid (Some fr) s) = None
       \<and> game (snd (handleMessage e cid (Some fr) s)) = game s
       \<and> (\<exists>pid pname. outbox (snd (handleMessage e cid (Some fr) s)) =
            outbox s @ map (\<lambda>c'. (c_ws (snd c'), ChatMessage pid pname (Some (JStr m)) (e_now e)))
                           (filter (\<lambda>c'. takes s (snd c')) (clients s)))"
proof -
  from handleMessage_chat[OF assms] obtain pid pname where
    h: "handleMessage e cid (Some fr) s =
          (None, broadcastToAll (ChatMessage pid pname (Some (JStr m)) (e_now e)) s)"
    by blast
  have "outbox (snd (handleMessage e cid (Some fr) s)) =
            outbox s @ map (\<lambda>c'. (c_ws (snd c'), ChatMessage pid pname (Some (JStr m)) (e_now e)))
                           (filter (\<lambda>c'. takes s (snd c')) (clients s))"
    by (simp add: h outbox_broadcastToAll)
  moreover have "game (snd (handleMessage e cid (Some fr) s)) = game s"
    by (simp add: h core_fields(6)[OF core_broadcastToAll])
  ultimately show ?thesis using h by auto
qed

text \<open>
  C10. \<open>chat\<close> and \<open>chat_message\<close> do not require a joined player. When the sending
  connection has none, the frame is accepted and one \<open>chat_message\<close> envelope goes to every
  connection whose socket is open and takes it; the envelope carries as sender whatever
  the payload gives as \<open>playerId\<close> and \<open>playerName\<close>, and \<open>anonymous\<close> and \<open>Anonymous\<close>
  where the payload gives nothing (or a falsy value). Nothing compares the two with the
  connection.
\<close>

theorem chat_sender_from_payload_when_not_joined:
  assumes "map_of (clients s) cid = Some c" and "c_playerId c = None"
    and "f_type fr = ''chat'' \<or> f_type fr = ''chat_message''"
    and "validateMessageStructure (e_now e) fr = None"
    and "f_payload fr = Some pl" and "map_of pl ''message'' = Some (JStr m)" and "length m \<le> 500"
  shows "(\<exists>sch. map_of messageTypes (f_type fr) = Some (False, sch))
       \<and> fst (handleMessage e cid (Some fr) s) = None
       \<and> outbox (snd (handleMessage e cid (Some fr) s)) =
            outbox s @
            map (\<lambda>c'. (c_ws (snd c'),
                       ChatMessage (or_default (map_of pl ''playerId'') (JStr ''anonymous''))
                                   (or_default (map_of pl ''playerName'') (JStr ''Anonymous''))
                                   (Some (JStr m)) (e_now e)))
                (filter (\<lambda>c'. takes s (snd c')) (clients s))"
proof -
  have a: "\<exists>sch. map_of messageTypes (f_type fr) = Some (False, sch)"
    using assms(3) by (auto simp: messageTypes_def)
  have h: "handleMessage e cid (Some fr) s =
           (None, broadcastToAll
                    (ChatMessage (or_default (map_of pl ''playerId'') (JStr ''anonymous''))
                                 (or_default (map_of pl ''playerName'') (JStr ''Anonymous''))
                                 (Some (JStr m)) (e_now e)) s)"
    using handleMessage_routed[OF assms(4) assms(1) validateMessage_chat[OF assms(3,5,6,7)]]
      routeMessage_chat[OF assms(3), of e cid c s]
      handleChatMessage_not_joined[OF assms(2), of "e_now e" pl s] assms(5,6)
    by simp
  have b: "fst (handleMessage e cid (Some fr) s) = None" by (simp add: h)
  have o: "outbox (snd (handleMessage e cid (Some fr) s)) =
            outbox s @
            map (\<lambda>c'. (c_ws (snd c'),
                       ChatMessage (or_default (map_of pl ''playerId'') (JStr ''anonymous''))
                                   (or_default (map_of pl ''playerName'') (JStr ''Anonymous''))
                                   (Some (JStr m)) (e_now e)))
                (filter (\<lambda>c'. takes s (snd c')) (clients s))"
    by (simp add: h outbox_broadcastToAll)
  from a b o show ?thesis by blast
qed

lemmas room_defs = ensureRoom_def addClientToRoom_def removeClientFromRoom_def
  addPlayerToRoom_def removePlayerFromRoom_def set_add_def

lemmas pm_defs = ws_send_def ws_close_def schedule_def deliver_def broadcastToAll_def
  broadcastToRoom_def players_values_def broadcastPlayerList_def sendToClient_def
  updateHeartbeat_def drain_def removePlayer_def findClientByPlayerId_def or_null_def
  addPlayer_def togglePlayerReady_def areAllPlayersReady_def getActivePlayers_def
  getPlayerCount_def getPlayerById_def gm_broadcast_def sys_transitionPhase_def
  List.map_filter_def

lemmas mp_defs = validateMessageStructure_def validateMessage_def messageTypes_def
  is_space_def trim_def is_room_code_def is_digit_def str_field_def or_default_def
  handlePing_def handlePong_def handleJoin_def handleLeave_def handleStartGame_def
  handleToggleReady_def handleChatMessage_def handleTestMessage_def handleMemoryTest_def
  handleSubmitAnswer_def mp_handleVote_def handleNewGame_def phase_of_string_def
  handleForcePhaseTransition_def routeMessage_def error_message_def sendError_def
  handleMessage_def server_init_def env_at_def frame_at_def

lemma lobby_state_eq:
  "lobby_state =
     \<lparr>clients = [(''c1'', \<lparr>c_ws = 1, c_playerId = None, c_playerData = None,
                            c_lastHeartbeat = 1, c_connectedAt = 1\<rparr>),
                 (''c2'', \<lparr>c_ws = 2, c_playerId = None, c_playerData = None,
                            c_lastHeartbeat = 2, c_connectedAt = 2\<rparr>)],
      pm_players = [], heap = Map.empty, nextRef = 0, rooms = [],
      game = GameManager_init, sockets = (\<lambda>_. \<lparr>so_open = True, so_throws = False\<rparr>),
      outbox = [(1, ConnectionEstablished ''c1'' (getPublicGameState GameManager_init) 1),
                (2, ConnectionEstablished ''c2'' (getPublicGameState GameManager_init) 2)],
      tasks = [], microtasks = [], unhandled = []\<rparr>"
  by (simp add: lobby_state_def pm_defs server_init_def Let_def)

lemma joined_state_eq:
  "joined_state =
     \<lparr>clients = [(''c1'', \<lparr>c_ws = 1, c_playerId = Some ''p1'',
                            c_playerData = Some \<lparr>cd_id = ''p1'', cd_name = ''Ann'',
                              cd_email = None, cd_roomCode = Some ''123'', cd_joinedAt = 2,
                              cd_isActive = True\<rparr>,
                            c_lastHeartbeat = 2, c_connectedAt = 2\<rparr>)],
      pm_players = [(''p1'', 0)],
      heap = [0 \<mapsto> \<lparr>p_id = ''p1'', p_name = ''Ann'', p_email = None,
                     p_roomCode = Some ''123'', p_joinedAt = 2, p_isActive = True,
                     p_ready = False, p_clientId = ''c1''\<rparr>],
      nextRef = 1,
      rooms = [(''123'', \<lparr>r_code = ''123'', r_players = [''p1''], r_clients = [''c1''],
                           r_hostId = Some ''p1'', r_createdAt = 2\<rparr>)],
      game = GameManager_init\<lparr>players := [0]\<rparr>,
      sockets = (\<lambda>_. \<lparr>so_open = True, so_throws = False\<rparr>),
      outbox = [(1, ConnectionEstablished ''c1'' (getPublicGameState GameManager_init) 1),
                (1, PlayerListUpdate [\<lparr>pe_id = ''p1'', pe_name = ''Ann'', pe_joined_at = 2,
                                       pe_isActive = True, pe_ready = False\<rparr>] 1
                      (Some ''123'') 2),
                (1, JoinSuccess 0 (getPublicGameState (GameManager_init\<lparr>players := [0]\<rparr>))
                      ''123'' 2)],
      tasks = [], microtasks = [], unhandled = []\<rparr>"
  by (simp add: joined_state_def pm_defs mp_defs room_defs Let_def updatePlayers_def)

lemma handleVote_rejects:
  assumes "phase g \<noteq> Voting \<or> voter \<in> v_playerId ` set (votes g)"
  shows "handleVote now voter target g =
           Inl (if phase g \<noteq> Voting then InvalidPhase ''Voting is not currently active''
                else DuplicateVote)"
proof (cases "phase g \<noteq> Voting")
  case True
  then show ?thesis by (simp add: handleVote_def)
next
  case False
  with assms have "find (\<lambda>v. v_playerId v = voter) (votes g) \<noteq> None"
    by (auto simp: find_None_iff)
  with False show ?thesis by (simp add: handleVote_def)
qed

lemma validateMessage_vote:
  assumes "f_type fr = ''vote''" and "c_playerId c = Some voter" and "voter \<noteq> []"
    and "f_payload fr = Some pl" and "map_of pl ''targetId'' = Some (JStr target)"
  shows "validateMessage fr c = None"
  using assms by (simp add: validateMessage_def messageTypes_def or_null_def)

lemma routeMessage_vote:
  assumes "f_type fr = ''vote''"
  shows "routeMessage e cid fr c s = mp_handleVote (e_now e) (f_payload fr) c s"
  using assms by (simp add: routeMessage_def Let_def)

lemma mp_handleVote_rejects:
  assumes "c_playerId c = Some voter" and "voter \<noteq> []"
    and "map_of pl ''targetId'' = Some (JStr target)"
    and "handleVote now voter target (game s) = Inl err"
  shows "mp_handleVote now (Some pl) c s = Inl err"
  using assms by (simp add: mp_handleVote_def or_null_def str_field_def)

lemma game_removeClient_removePlayer_sync:
  "game (removeClient clientId s) = game s"
  "game (removePlayer_sync playerId s) = game s"
proof (induction clientId s and playerId s rule: removeClient_removePlayer_sync.induct)
  case (1 clientId s)
  show ?case
  proof (cases "map_of (clients s) clientId")
    case None
    then show ?thesis by (simp add: removeClient.simps)
  next
    case (Some client)
    let ?s1 = "if so_open (sockets s (c_ws client)) then ws_close (c_ws client) s else s"
    let ?s2 = "?s1\<lparr>clients := AList.delete clientId (clients s)\<rparr>"
    have g2: "game ?s2 = game s" by (simp add: ws_close_def)
    have ih: "\<And>pid. c_playerId client = Some pid \<Longrightarrow> pid \<noteq> [] \<Longrightarrow>
        \<not> list_ex (\<lambda>c. c_playerId (snd c) = Some pid) (AList.delete clientId (clients s)) \<Longrightarrow>
        game (removePlayer_sync pid ?s2) = game ?s2"
      using 1[OF Some refl refl] by simp
    show ?thesis
      using Some g2 ih
      by (subst removeClient.simps) (auto simp: Let_def split: option.splits)
  qed
next
  case (2 playerId s)
  show ?case
  proof (cases "map_of (pm_players s) playerId")
    case None
    then show ?thesis by (simp add: removePlayer_sync.simps)
  next
    case (Some r)
    show ?thesis
    proof (cases "heap s r")
      case None
      with Some show ?thesis by (simp add: removePlayer_sync.simps)
    next
      case (Some player)
      have ih: "map_of (clients s) (p_clientId player) \<noteq> None \<Longrightarrow>
                game (removeClient (p_clientId player) s) = game s"
        using 2[OF \<open>map_of (pm_players s) playerId = Some r\<close> Some] by simp
      show ?thesis
        using \<open>map_of (pm_players s) playerId = Some r\<close> Some ih
        by (subst removePlayer_sync.simps) (auto simp: Let_def)
    qed
  qed
qed

lemma game_sendError: "game (sendError now cid err s) = game s"
  by (simp add: sendError_def sendToClient_def ws_send_def game_removeClient_removePlayer_sync(1)
        split: option.splits)

text \<open>
  C3. A vote outside the voting phase is refused with the error \<open>Voting is not
  currently active\<close>, and a vote of a voter who has voted already with \<open>Player has
  already voted\<close> (the phase is tested first). In both cases the error is thrown before
  anything has changed; \<open>handleMessage\<close> reports it and leaves the game state as it was.
  When the socket of the connection the vote came from is open and takes the envelope,
  the whole state of the server is as before but for one \<open>error\<close> envelope with that
  message, sent to that connection.
\<close>

theorem vote_refused_with_error_envelope:
  assumes "map_of (clients s) cid = Some c" and "c_playerId c = Some voter" and "voter \<noteq> []"
    and "f_type fr = ''vote''" and "validateMessageStructure (e_now e) fr = None"
    and "f_payload fr = Some pl" and "map_of pl ''targetId'' = Some (JStr target)"
    and "phase (game s) \<noteq> Voting \<or> voter \<in> v_playerId ` set (votes (game s))"
  shows "handleVote (e_now e) voter target (game s) =
           Inl (if phase (game s) \<noteq> Voting then InvalidPhase ''Voting is not currently active''
                else DuplicateVote)
       \<and> fst (handleMessage e cid (Some fr) s) =
           Some (if phase (game s) \<noteq> Voting then InvalidPhase ''Voting is not currently active''
                 else DuplicateVote)
       \<and> game (snd (handleMessage e cid (Some fr) s)) = game s
       \<and> (takes s c \<longrightarrow>
            snd (handleMessage e cid (Some fr) s) =
              s\<lparr>outbox := outbox s @
                   [(c_ws c, ErrorMsg (if phase (game s) \<noteq> Voting
                                       then ''Voting is not currently active''
                                       else ''Player has already voted'')
                               ''PROTOCOL_ERROR'' (e_now e))]\<rparr>)"
proof -
  let ?err = "if phase (game s) \<noteq> Voting then InvalidPhase ''Voting is not currently active''
              else DuplicateVote"
  have g: "handleVote (e_now e) voter target (game s) = Inl ?err"
    by (rule handleVote_rejects[OF assms(8)])
  have r: "routeMessage e cid fr c s = Inl ?err"
    using routeMessage_vote[OF assms(4)] mp_handleVote_rejects[OF assms(2,3,7) g] assms(6)
    by simp
  have m: "error_message ?err = (if phase (game s) \<noteq> Voting
                                     then ''Voting is not currently active''
                                     else ''Player has already voted'')"
    by (simp add: error_message_def)
  have h: "handleMessage e cid (Some fr) s = (Some ?err, sendError (e_now e) cid ?err s)"
    using handleMessage_routed[OF assms(5) assms(1) validateMessage_vote[OF assms(4,2,3,6,7)]] r
    by simp
  have a: "fst (handleMessage e cid (Some fr) s) = Some ?err" by (simp add: h)
  have b: "game (snd (handleMessage e cid (Some fr) s)) = game s"
    by (simp add: h game_sendError)
  have c: "takes s c \<longrightarrow>
            snd (handleMessage e cid (Some fr) s) =
              s\<lparr>outbox := outbox s @
                   [(c_ws c, ErrorMsg (if phase (game s) \<noteq> Voting
                                       then ''Voting is not currently active''
                                       else ''Player has already voted'')
                               ''PROTOCOL_ERROR'' (e_now e))]\<rparr>"
  proof
    assume "takes s c"
    from sendError_takes[OF assms(1) this, of "e_now e" ?err] m
    show "snd (handleMessage e cid (Some fr) s) =
              s\<lparr>outbox := outbox s @
                   [(c_ws c, ErrorMsg (if phase (game s) \<noteq> Voting
                                       then ''Voting is not currently active''
                                       else ''Player has already voted'')
                               ''PROTOCOL_ERROR'' (e_now e))]\<rparr>"
      by (simp add: h)
  qed
  from g a b c show ?thesis by blast
qed

theorem vote_refused_with_error_envelope_witness:
  "map_of (clients joined_state) ''c1'' =
       Some \<lparr>c_ws = 1, c_playerId = Some ''p1'',
              c_playerData = Some \<lparr>cd_id = ''p1'', cd_name = ''Ann'',
                cd_email = None, cd_roomCode = Some ''123'', cd_joinedAt = 2,
                cd_isActive = True\<rparr>,
              c_lastHeartbeat = 2, c_connectedAt = 2\<rparr>
   \<and> phase (game joined_state) \<noteq> Voting
   \<and> fst (handleMessage (env_at 3) ''c1''
            (Some (frame_at 3 ''vote'' [(''targetId'', JStr ''p2'')])) joined_state) =
       Some (InvalidPhase ''Voting is not currently active'')
   \<and> snd (handleMessage (env_at 3) ''c1''
            (Some (frame_at 3 ''vote'' [(''targetId'', JStr ''p2'')])) joined_state) =
       joined_state\<lparr>outbox := outbox joined_state @
           [(1, ErrorMsg ''Voting is not currently active'' ''PROTOCOL_ERROR'' 3)]\<rparr>"
proof -
  let ?c = "\<lparr>c_ws = 1, c_playerId = Some ''p1'',
              c_playerData = Some \<lparr>cd_id = ''p1'', cd_name = ''Ann'',
                cd_email = None, cd_roomCode = Some ''123'', cd_joinedAt = 2,
                cd_isActive = True\<rparr>,
              c_lastHeartbeat = 2, c_connectedAt = 2\<rparr>"
  let ?fr = "frame_at 3 ''vote'' [(''targetId'', JStr ''p2'')]"
  have c: "map_of (clients joined_state) ''c1'' = Some ?c" by (simp add: joined_state_eq)
  have p: "c_playerId ?c = Some ''p1''" by simp
  have n: "''p1'' \<noteq> []" by simp
  have t: "f_type ?fr = ''vote''" by (simp add: frame_at_def)
  have v: "validateMessageStructure (e_now (env_at 3)) ?fr = None"
    by (simp add: validateMessageStructure_def frame_at_def env_at_def)
  have pl: "f_payload ?fr = Some [(''targetId'', JStr ''p2'')]" by (simp add: frame_at_def)
  have tg: "map_of [(''targetId'', JStr ''p2'')] ''targetId'' = Some (JStr ''p2'')" by simp
  have ph: "phase (game joined_state) \<noteq> Voting"
    by (simp add: joined_state_eq GameManager_init_def)
  then have d: "phase (game joined_state) \<noteq> Voting
       \<or> ''p1'' \<in> v_playerId ` set (votes (game joined_state))" by simp
  have tk: "takes joined_state ?c" by (simp add: takes_def joined_state_eq)
  have e: "e_now (env_at 3) = 3" by (simp add: env_at_def)
  from vote_refused_with_error_envelope[OF c p n t v pl tg d] c ph e tk
  show ?thesis by simp
qed

lemma routeMessage_join:
  assumes "f_type fr = ''join''"
  shows "routeMessage e cid fr c s =
           handleJoin (e_now e) (e_randomId e) cid (f_payload fr) c s"
  using assms by (simp add: routeMessage_def Let_def)

lemma handleJoin_bad_code:
  assumes "\<not> is_room_code (trim (case str_field pl ''roomCode'' of None \<Rightarrow> [] | Some x \<Rightarrow> x))"
  shows "handleJoin now rid cid (Some pl) c s = Inl InvalidRoomCode"
  using assms by (simp add: handleJoin_def Let_def)

text \<open>
  C8 (as the code has it). A join request that has passed the schema check and whose
  room code, once leading and trailing white space is trimmed off, is not three ASCII
  digits is refused with the error \<open>Invalid room code\<close>: the state of the server stays
  as it was (player and client maps, rooms, game state), but for one \<open>error\<close> envelope
  sent to the requesting connection (whose socket is open and takes the envelope).
\<close>

theorem join_bad_room_code_refused:
  assumes "map_of (clients s) cid = Some c"
    and "f_type fr = ''join''" and "validateMessageStructure (e_now e) fr = None"
    and "validateMessage fr c = None" and "f_payload fr = Some pl"
    and "\<not> is_room_code (trim (case str_field pl ''roomCode'' of None \<Rightarrow> [] | Some x \<Rightarrow> x))"
    and "takes s c"
  shows "handleMessage e cid (Some fr) s =
           (Some InvalidRoomCode,
            s\<lparr>outbox := outbox s @
                 [(c_ws c, ErrorMsg ''Invalid room code. Use a 3-digit code (e.g., 123).''
                             ''PROTOCOL_ERROR'' (e_now e))]\<rparr>)"
proof -
  have r: "routeMessage e cid fr c s = Inl InvalidRoomCode"
    using routeMessage_join[OF assms(2)] handleJoin_bad_code[OF assms(6)] assms(5) by simp
  have "handleMessage e cid (Some fr) s =
          (Some InvalidRoomCode, sendError (e_now e) cid InvalidRoomCode s)"
    using handleMessage_routed[OF assms(3) assms(1) assms(4)] r by simp
  then show ?thesis
    using sendError_takes[OF assms(1) assms(7), of "e_now e" InvalidRoomCode]
    by (simp add: error_message_def)
qed

theorem join_bad_room_code_refused_witness:
  "\<not> is_room_code (trim ''12'')
   \<and> handleMessage (env_at 3) ''c1''
        (Some (frame_at 3 ''join'' [(''playerName'', JStr ''Ann''), (''roomCode'', JStr ''12'')]))
        lobby_state =
       (Some InvalidRoomCode,
        lobby_state\<lparr>outbox := outbox lobby_state @
           [(1, ErrorMsg ''Invalid room code. Use a 3-digit code (e.g., 123).''
                  ''PROTOCOL_ERROR'' 3)]\<rparr>)"
proof -
  let ?c = "\<lparr>c_ws = 1, c_playerId = None, c_playerData = None,
              c_lastHeartbeat = 1, c_connectedAt = 1\<rparr>"
  let ?pl = "[(''playerName'', JStr ''Ann''), (''roomCode'', JStr ''12'')]"
  let ?fr = "frame_at 3 ''join'' ?pl"
  have c: "map_of (clients lobby_state) ''c1'' = Some ?c" by (simp add: lobby_state_eq)
  have t: "f_type ?fr = ''join''" by (simp add: frame_at_def)
  have v: "validateMessageStructure (e_now (env_at 3)) ?fr = None"
    by (simp add: validateMessageStructure_def frame_at_def env_at_def)
  have vm: "validateMessage ?fr ?c = None"
    by (simp add: validateMessage_def messageTypes_def frame_at_def)
  have pl: "f_payload ?fr = Some ?pl" by (simp add: frame_at_def)
  have b0: "\<not> is_room_code (trim ''12'')"
    by (simp add: is_room_code_def trim_def is_space_def)
  have b: "\<not> is_room_code (trim (case str_field ?pl ''roomCode'' of None \<Rightarrow> [] | Some x \<Rightarrow> x))"
    using b0 by (simp add: str_field_def)
  have tk: "takes lobby_state ?c" by (simp add: takes_def lobby_state_eq)
  have e: "e_now (env_at 3) = 3" by (simp add: env_at_def)
  from join_bad_room_code_refused[OF c t v vm pl b tk] b0 e show ?thesis by simp
qed

text \<open>
  C8 as stated fails for a room code with white space around three digits: \<open>" 123"\<close>
  is not three ASCII digits, and the join goes through; the player and a room are
  created, the room under the code as sent.
\<close>

theorem join_padded_room_code_counterexample:
  "\<not> is_room_code '' 123''
   \<and> fst (handleMessage (env_at 3) ''c1''
        (Some (frame_at 3 ''join'' [(''playerName'', JStr ''Ann''), (''roomCode'', JStr '' 123'')]))
        lobby_state) = None
   \<and> map fst (pm_players (snd (handleMessage (env_at 3) ''c1''
        (Some (frame_at 3 ''join'' [(''playerName'', JStr ''Ann''), (''roomCode'', JStr '' 123'')]))
        lobby_state))) = [''p_x'']
   \<and> map fst (rooms (snd (handleMessage (env_at 3) ''c1''
        (Some (frame_at 3 ''join'' [(''playerName'', JStr ''Ann''), (''roomCode'', JStr '' 123'')]))
        lobby_state))) = ['' 123'']"
proof -
  have a: "\<not> is_room_code '' 123''" by (simp add: is_room_code_def)
  have b: "fst (handleMessage (env_at 3) ''c1''
        (Some (frame_at 3 ''join'' [(''playerName'', JStr ''Ann''), (''roomCode'', JStr '' 123'')]))
        lobby_state) = None"
    unfolding lobby_state_eq
    by (simp add: pm_defs mp_defs room_defs Let_def updatePlayers_def)
  have c: "map fst (pm_players (snd (handleMessage (env_at 3) ''c1''
        (Some (frame_at 3 ''join'' [(''playerName'', JStr ''Ann''), (''roomCode'', JStr '' 123'')]))
        lobby_state))) = [''p_x'']"
    unfolding lobby_state_eq
    by (simp add: pm_defs mp_defs room_defs Let_def updatePlayers_def)
  have d: "map fst (rooms (snd (handleMessage (env_at 3) ''c1''
        (Some (frame_at 3 ''join'' [(''playerName'', JStr ''Ann''), (''roomCode'', JStr '' 123'')]))
        lobby_state))) = ['' 123'']"
    unfolding lobby_state_eq
    by (simp add: pm_defs mp_defs room_defs Let_def updatePlayers_def)
  from a b c d show ?thesis by blast
qed

lemma handleMessage_chat_not_joined:
  assumes "map_of (clients s) cid = Some c" and "c_playerId c = None"
    and "f_type fr = ''chat'' \<or> f_type fr = ''chat_message''"
    and "validateMessageStructure (e_now e) fr = None"
    and "f_payload fr = Some pl" and "map_of pl ''message'' = Some (JStr m)" and "length m \<le> 500"
  shows "handleMessage e cid (Some fr) s =
           (None, broadcastToAll
                    (ChatMessage (or_default (map_of pl ''playerId'') (JStr ''anonymous''))
                                 (or_default (map_of pl ''playerName'') (JStr ''Anonymous''))
                                 (Some (JStr m)) (e_now e)) s)"
  using handleMessage_routed[OF assms(4) assms(1) validateMessage_chat[OF assms(3,5,6,7)]]
    routeMessage_chat[OF assms(3), of e cid c s]
    handleChatMessage_not_joined[OF assms(2), of "e_now e" pl s] assms(5,6)
  by simp

lemma lobby_chat_facts:
  "map_of (clients lobby_state) ''c1'' =
     Some \<lparr>c_ws = 1, c_playerId = None, c_playerData = None,
            c_lastHeartbeat = 1, c_connectedAt = 1\<rparr>"
  "validateMessageStructure (e_now (env_at 3)) (frame_at 3 ''chat'' pl) = None"
  "f_type (frame_at 3 ''chat'' pl) = ''chat''"
  "f_payload (frame_at 3 ''chat'' pl) = Some pl"
  "e_now (env_at 3) = 3"
  "phase (game lobby_state) = Waiting"
  "filter (\<lambda>c'. takes lobby_state (snd c')) (clients lobby_state) = clients lobby_state"
  "map (c_ws \<circ> snd) (clients lobby_state) = [1, 2]"
  by (simp_all add: lobby_state_eq validateMessageStructure_def frame_at_def env_at_def
        GameManager_init_def takes_def)

theorem chat_broadcast_in_every_phase_witness:
  "map_of (clients lobby_state) ''c1'' =
     Some \<lparr>c_ws = 1, c_playerId = None, c_playerData = None,
            c_lastHeartbeat = 1, c_connectedAt = 1\<rparr>
   \<and> phase (game lobby_state) = Waiting
   \<and> fst (handleMessage (env_at 3) ''c1'' (Some (frame_at 3 ''chat'' [(''message'', JStr ''hi'')]))
          lobby_state) = None
   \<and> game (snd (handleMessage (env_at 3) ''c1''
          (Some (frame_at 3 ''chat'' [(''message'', JStr ''hi'')])) lobby_state)) = game lobby_state"
proof -
  have t: "f_type (frame_at 3 ''chat'' [(''message'', JStr ''hi'')]) = ''chat''
         \<or> f_type (frame_at 3 ''chat'' [(''message'', JStr ''hi'')]) = ''chat_message''"
    by (simp add: lobby_chat_facts(3))
  have m: "map_of [(''message'', JStr ''hi'')] ''message'' = Some (JStr ''hi'')" by simp
  have l: "length ''hi'' \<le> 500" by simp
  from chat_broadcast_in_every_phase[OF lobby_chat_facts(1) t lobby_chat_facts(2)
      lobby_chat_facts(4) m l]
    lobby_chat_facts(1,6)
  show ?thesis by blast
qed

text \<open>
  C6 as stated fails: in the \<open>waiting\<close> phase a chat of a connection that has not even
  joined is accepted and broadcast to both connections.
\<close>

theorem chat_in_waiting_phase_counterexample:
  "phase (game lobby_state) = Waiting
   \<and> fst (handleMessage (env_at 3) ''c1'' (Some (frame_at 3 ''chat'' [(''message'', JStr ''hi'')]))
          lobby_state) = None
   \<and> outbox (snd (handleMessage (env_at 3) ''c1''
          (Some (frame_at 3 ''chat'' [(''message'', JStr ''hi'')])) lobby_state)) =
       outbox lobby_state @
         [(1, ChatMessage (JStr ''anonymous'') (JStr ''Anonymous'') (Some (JStr ''hi'')) 3),
          (2, ChatMessage (JStr ''anonymous'') (JStr ''Anonymous'') (Some (JStr ''hi'')) 3)]"
proof -
  have t: "f_type (frame_at 3 ''chat'' [(''message'', JStr ''hi'')]) = ''chat''
         \<or> f_type (frame_at 3 ''chat'' [(''message'', JStr ''hi'')]) = ''chat_message''"
    by (simp add: lobby_chat_facts(3))
  have m: "map_of [(''message'', JStr ''hi'')] ''message'' = Some (JStr ''hi'')" by simp
  have l: "length ''hi'' \<le> 500" by simp
  have p: "c_playerId \<lparr>c_ws = 1, c_playerId = None, c_playerData = None,
            c_lastHeartbeat = 1, c_connectedAt = 1\<rparr> = None" by simp
  have h: "handleMessage (env_at 3) ''c1''
          (Some (frame_at 3 ''chat'' [(''message'', JStr ''hi'')])) lobby_state =
        (None, broadcastToAll
           (ChatMessage (JStr ''anonymous'') (JStr ''Anonymous'') (Some (JStr ''hi'')) 3)
           lobby_state)"
    using handleMessage_chat_not_joined[OF lobby_chat_facts(1) p t lobby_chat_facts(2)
      lobby_chat_facts(4) m l]
    by (simp add: lobby_chat_facts(5) or_default_def)
  have o: "outbox (broadcastToAll
           (ChatMessage (JStr ''anonymous'') (JStr ''Anonymous'') (Some (JStr ''hi'')) 3)
           lobby_state) =
       outbox lobby_state @
         [(1, ChatMessage (JStr ''anonymous'') (JStr ''Anonymous'') (Some (JStr ''hi'')) 3),
          (2, ChatMessage (JStr ''anonymous'') (JStr ''Anonymous'') (Some (JStr ''hi'')) 3)]"
    unfolding outbox_broadcastToAll lobby_chat_facts(7)
    by (simp add: lobby_state_eq)
  from h o lobby_chat_facts(6) show ?thesis by simp
qed

theorem chat_sender_from_payload_when_not_joined_witness:
  "map_of (clients lobby_state) ''c1'' =
     Some \<lparr>c_ws = 1, c_playerId = None, c_playerData = None,
            c_lastHeartbeat = 1, c_connectedAt = 1\<rparr>
   \<and> pm_players lobby_state = []
   \<and> outbox (snd (handleMessage (env_at 3) ''c1''
        (Some (frame_at 3 ''chat''
           [(''playerId'', JStr ''p1''), (''playerName'', JStr ''Ann''), (''message'', JStr ''hi'')]))
        lobby_state)) =
       outbox lobby_state @
         [(1, ChatMessage (JStr ''p1'') (JStr ''Ann'') (Some (JStr ''hi'')) 3),
          (2, ChatMessage (JStr ''p1'') (JStr ''Ann'') (Some (JStr ''hi'')) 3)]
   \<and> outbox (snd (handleMessage (env_at 3) ''c1''
        (Some (frame_at 3 ''chat'' [(''playerName'', JStr []), (''message'', JStr ''hi'')]))
        lobby_state)) =
       outbox lobby_state @
         [(1, ChatMessage (JStr ''anonymous'') (JStr ''Anonymous'') (Some (JStr ''hi'')) 3),
          (2, ChatMessage (JStr ''anonymous'') (JStr ''Anonymous'') (Some (JStr ''hi'')) 3)]"
proof -
  let ?pl = "[(''playerId'', JStr ''p1''), (''playerName'', JStr ''Ann''), (''message'', JStr ''hi'')]"
  let ?pl' = "[(''playerName'', JStr []), (''message'', JStr ''hi'')]"
  have p: "c_playerId \<lparr>c_ws = 1, c_playerId = None, c_playerData = None,
            c_lastHeartbeat = 1, c_connectedAt = 1\<rparr> = None" by simp
  have t: "f_type (frame_at 3 ''chat'' ?pl) = ''chat'' \<or> f_type (frame_at 3 ''chat'' ?pl) = ''chat_message''"
    by (simp add: lobby_chat_facts(3))
  have t': "f_type (frame_at 3 ''chat'' ?pl') = ''chat'' \<or> f_type (frame_at 3 ''chat'' ?pl') = ''chat_message''"
    by (simp add: lobby_chat_facts(3))
  have m: "map_of ?pl ''message'' = Some (JStr ''hi'')" by simp
  have m': "map_of ?pl' ''message'' = Some (JStr ''hi'')" by simp
  have l: "length ''hi'' \<le> 500" by simp
  have c: "clients lobby_state =
             [(''c1'', \<lparr>c_ws = 1, c_playerId = None, c_playerData = None,
                            c_lastHeartbeat = 1, c_connectedAt = 1\<rparr>),
              (''c2'', \<lparr>c_ws = 2, c_playerId = None, c_playerData = None,
                            c_lastHeartbeat = 2, c_connectedAt = 2\<rparr>)]"
    and n: "pm_players lobby_state = []"
    by (simp_all add: lobby_state_eq)
  have tk: "\<And>x. takes lobby_state x" by (simp add: takes_def lobby_state_eq)
  have a: "outbox (snd (handleMessage (env_at 3) ''c1'' (Some (frame_at 3 ''chat'' ?pl)) lobby_state)) =
       outbox lobby_state @
         [(1, ChatMessage (JStr ''p1'') (JStr ''Ann'') (Some (JStr ''hi'')) 3),
          (2, ChatMessage (JStr ''p1'') (JStr ''Ann'') (Some (JStr ''hi'')) 3)]"
    using chat_sender_from_payload_when_not_joined[OF lobby_chat_facts(1) p t lobby_chat_facts(2)
      lobby_chat_facts(4) m l]
    by (simp add: lobby_chat_facts(5) or_default_def c tk)
  have b: "outbox (snd (handleMessage (env_at 3) ''c1'' (Some (frame_at 3 ''chat'' ?pl')) lobby_state)) =
       outbox lobby_state @
         [(1, ChatMessage (JStr ''anonymous'') (JStr ''Anonymous'') (Some (JStr ''hi'')) 3),
          (2, ChatMessage (JStr ''anonymous'') (JStr ''Anonymous'') (Some (JStr ''hi'')) 3)]"
    using chat_sender_from_payload_when_not_joined[OF lobby_chat_facts(1) p t' lobby_chat_facts(2)
      lobby_chat_facts(4) m' l]
    by (simp add: lobby_chat_facts(5) or_default_def c tk)
  from a b n lobby_chat_facts(1) show ?thesis by blast
qed

lemma two_player_room_eq:
  "two_player_room =
     \<lparr>clients = [(''c1'', \<lparr>c_ws = 1, c_playerId = Some ''p1'',
                            c_playerData = Some \<lparr>cd_id = ''p1'', cd_name = ''Ann'',
                              cd_email = None, cd_roomCode = Some ''123'', cd_joinedAt = 2,
                              cd_isActive = True\<rparr>,
                            c_lastHeartbeat = 2, c_connectedAt = 2\<rparr>),
                 (''c2'', \<lparr>c_ws = 2, c_playerId = Some ''p2'',
                            c_playerData = Some \<lparr>cd_id = ''p2'', cd_name = ''Bob'',
                              cd_email = None, cd_roomCode = Some ''123'', cd_joinedAt = 4,
                              cd_isActive = True\<rparr>,
                            c_lastHeartbeat = 4, c_connectedAt = 4\<rparr>)],
      pm_players = [(''p1'', 0), (''p2'', 1)],
      heap = [0 \<mapsto> \<lparr>p_id = ''p1'', p_name = ''Ann'', p_email = None,
                     p_roomCode = Some ''123'', p_joinedAt = 2, p_isActive = True,
                     p_ready = False, p_clientId = ''c1''\<rparr>,
              1 \<mapsto> \<lparr>p_id = ''p2'', p_name = ''Bob'', p_email = None,
                     p_roomCode = Some ''123'', p_joinedAt = 4, p_isActive = True,
                     p_ready = False, p_clientId = ''c2''\<rparr>],
      nextRef = 2,
      rooms = [(''123'', \<lparr>r_code = ''123'', r_players = [''p1'', ''p2''],
                           r_clients = [''c1'', ''c2''], r_hostId = Some ''p1'',
                           r_createdAt = 2\<rparr>)],
      game = GameManager_init\<lparr>players := [0, 1]\<rparr>,
      sockets = (\<lambda>_. \<lparr>so_open = True, so_throws = False\<rparr>),
      outbox = outbox joined_state @
               [(2, ConnectionEstablished ''c2''
                      (getPublicGameState (GameManager_init\<lparr>players := [0]\<rparr>)) 3),
                (1, PlayerListUpdate
                      [\<lparr>pe_id = ''p1'', pe_name = ''Ann'', pe_joined_at = 2,
                         pe_isActive = True, pe_ready = False\<rparr>,
                       \<lparr>pe_id = ''p2'', pe_name = ''Bob'', pe_joined_at = 4,
                         pe_isActive = True, pe_ready = False\<rparr>] 2 (Some ''123'') 4),
                (2, PlayerListUpdate
                      [\<lparr>pe_id = ''p1'', pe_name = ''Ann'', pe_joined_at = 2,
                         pe_isActive = True, pe_ready = False\<rparr>,
                       \<lparr>pe_id = ''p2'', pe_name = ''Bob'', pe_joined_at = 4,
                         pe_isActive = True, pe_ready = False\<rparr>] 2 (Some ''123'') 4),
                (2, JoinSuccess 1 (getPublicGameState (GameManager_init\<lparr>players := [0, 1]\<rparr>))
                      ''123'' 4)],
      tasks = [], microtasks = [], unhandled = []\<rparr>"
  unfolding two_player_room_def joined_state_eq
  by (simp add: pm_defs mp_defs room_defs Let_def updatePlayers_def)

text \<open>
  C9 fails on the code. \<open>removePlayer\<close> is written to be idempotent: it returns at once
  when the id is not in the player map, and a further call after a removal has completed
  changes nothing. But one removal of a connected player runs \<open>removePlayer\<close> twice for the
  same id: before it deletes the player from the map, \<open>removePlayer\<close> calls \<open>removeClient\<close>,
  and \<open>removeClient\<close>, finding no other connection of the player, calls \<open>removePlayer\<close>
  again without awaiting it. The nested call finds the player still in the map, so it
  does not return early; both calls are suspended and both broadcast the player list when
  they resume. With players \<open>p1\<close> and \<open>p2\<close> in room \<open>123\<close>, removing \<open>p1\<close> (by a direct call
  or by a \<open>leave\<close> frame of its connection) sends the same \<open>player_list_update\<close> twice to
  the connection of \<open>p2\<close>.
\<close>

theorem removePlayer_nested_call_broadcasts_twice:
  "map_of (pm_players two_player_room) ''p1'' = Some 0
   \<and> microtasks two_player_room = []
   \<and> microtasks (removePlayer_sync ''p1'' two_player_room) =
       [RemovePlayerCont ''p1'' (Some ''123''), RemovePlayerCont ''p1'' (Some ''123'')]
   \<and> outbox (removePlayer 9 ''p1'' two_player_room) =
       outbox two_player_room @
       [(2, PlayerListUpdate [\<lparr>pe_id = ''p2'', pe_name = ''Bob'', pe_joined_at = 4,
                                pe_isActive = True, pe_ready = False\<rparr>] 1 (Some ''123'') 9),
        (2, PlayerListUpdate [\<lparr>pe_id = ''p2'', pe_name = ''Bob'', pe_joined_at = 4,
                                pe_isActive = True, pe_ready = False\<rparr>] 1 (Some ''123'') 9)]
   \<and> outbox (server_step (Frame (env_at 9) ''c1'' (Some (frame_at 9 ''leave'' [])))
               two_player_room) =
       outbox two_player_room @
       [(2, PlayerListUpdate [\<lparr>pe_id = ''p2'', pe_name = ''Bob'', pe_joined_at = 4,
                                pe_isActive = True, pe_ready = False\<rparr>] 1 (Some ''123'') 9),
        (2, PlayerListUpdate [\<lparr>pe_id = ''p2'', pe_name = ''Bob'', pe_joined_at = 4,
                                pe_isActive = True, pe_ready = False\<rparr>] 1 (Some ''123'') 9)]
   \<and> outbox (removePlayer 10 ''p1'' (removePlayer 9 ''p1'' two_player_room)) =
       outbox (removePlayer 9 ''p1'' two_player_room)"
proof -
  have a: "map_of (pm_players two_player_room) ''p1'' = Some 0"
    and b: "microtasks two_player_room = []"
    by (simp_all add: two_player_room_eq)
  have c: "microtasks (removePlayer_sync ''p1'' two_player_room) =
       [RemovePlayerCont ''p1'' (Some ''123''), RemovePlayerCont ''p1'' (Some ''123'')]"
    unfolding two_player_room_eq
    by (simp add: removePlayer_sync.simps removeClient.simps pm_defs room_defs Let_def)
  have d: "outbox (removePlayer 9 ''p1'' two_player_room) =
       outbox two_player_room @
       [(2, PlayerListUpdate [\<lparr>pe_id = ''p2'', pe_name = ''Bob'', pe_joined_at = 4,
                                pe_isActive = True, pe_ready = False\<rparr>] 1 (Some ''123'') 9),
        (2, PlayerListUpdate [\<lparr>pe_id = ''p2'', pe_name = ''Bob'', pe_joined_at = 4,
                                pe_isActive = True, pe_ready = False\<rparr>] 1 (Some ''123'') 9)]"
    unfolding two_player_room_eq
    by (simp add: removePlayer_sync.simps removeClient.simps pm_defs room_defs Let_def)
  have e: "outbox (server_step (Frame (env_at 9) ''c1'' (Some (frame_at 9 ''leave'' [])))
               two_player_room) =
       outbox two_player_room @
       [(2, PlayerListUpdate [\<lparr>pe_id = ''p2'', pe_name = ''Bob'', pe_joined_at = 4,
                                pe_isActive = True, pe_ready = False\<rparr>] 1 (Some ''123'') 9),
        (2, PlayerListUpdate [\<lparr>pe_id = ''p2'', pe_name = ''Bob'', pe_joined_at = 4,
                                pe_isActive = True, pe_ready = False\<rparr>] 1 (Some ''123'') 9)]"
    unfolding two_player_room_eq
    by (simp add: removePlayer_sync.simps removeClient.simps pm_defs mp_defs room_defs Let_def
          updatePlayers_def)
  have f: "outbox (removePlayer 10 ''p1'' (removePlayer 9 ''p1'' two_player_room)) =
       outbox (removePlayer 9 ''p1'' two_player_room)"
    by (simp add: removePlayer_after_removal)
  from a b c d e f show ?thesis by blast
qed

lemma ready_then_new_game_eq:
  "phase (game ready_then_new_game) = Waiting"
  "results (game ready_then_new_game) = None"
  "map_of (pm_players ready_then_new_game) ''p1'' = Some 0"
  "heap ready_then_new_game 0 =
     Some \<lparr>p_id = ''p1'', p_name = ''Ann'', p_email = None, p_roomCode = Some ''123'',
            p_joinedAt = 2, p_isActive = True, p_ready = True, p_clientId = ''c1''\<rparr>"
  unfolding ready_then_new_game_def joined_state_eq
  by (simp_all add: pm_defs mp_defs room_defs gm_defs Let_def getPublicGameState_def
        calculateVoteResults_def)

text \<open>
  C7 fails on the code. Player \<open>p1\<close> readies up while waiting; the session goes to
  \<open>results\<close> and a \<open>new_game\<close> message returns it to \<open>waiting\<close>. The session is
  waiting again, its round data is cleared, and the player is still marked ready.
\<close>

theorem ready_kept_on_return_to_waiting:
  "phase (game joined_state) = Waiting
   \<and> map_option p_ready (heap joined_state 0) = Some False
   \<and> phase (game ready_then_new_game) = Waiting
   \<and> results (game ready_then_new_game) = None
   \<and> map_of (pm_players ready_then_new_game) ''p1'' = Some 0
   \<and> map_option p_ready (heap ready_then_new_game 0) = Some True"
  by (simp add: ready_then_new_game_eq joined_state_eq GameManager_init_def)

end
